theory Spec2Isabelle
  imports Complex_Main "HOL-Library.AList"
begin

section \<open>JavaScript values\<close>

text \<open>
  The server of the store (\<^verbatim>\<open>server.js\<close>) works on JSON documents. A number of the
  source is an IEEE double; the model keeps \<open>NaN\<close> apart and takes every other number
  as an exact rational, so rounding and the infinities are not modelled. Sums below are
  always written as the accumulation the source performs, in its order.
\<close>

datatype jsnum = NaN | Num rat

text \<open>
  The primitive values a JSON field can hold, and \<open>undefined\<close> for a field that is not
  there. Objects and arrays inside a field are not modelled. Equality of two such values
  is what \<^verbatim>\<open>Map.get\<close> uses to compare keys.
\<close>

datatype jsval = JUndefined | JNull | JBool bool | JNum jsnum | JStr string

fun num_truthy :: "jsnum \<Rightarrow> bool" where
  "num_truthy NaN = False"
| "num_truthy (Num r) = (r \<noteq> 0)"

fun truthy :: "jsval \<Rightarrow> bool" where
  "truthy JUndefined = False"
| "truthy JNull = False"
| "truthy (JBool b) = b"
| "truthy (JNum n) = num_truthy n"
| "truthy (JStr s) = (s \<noteq> [])"

text \<open>\<^verbatim>\<open>a || b\<close> on values and on numbers.\<close>

definition js_or :: "jsval \<Rightarrow> jsval \<Rightarrow> jsval" where
  "js_or a b = (if truthy a then a else b)"

definition num_or :: "jsnum \<Rightarrow> jsnum \<Rightarrow> jsnum" where
  "num_or a b = (if num_truthy a then a else b)"

fun num_mul :: "jsnum \<Rightarrow> jsnum \<Rightarrow> jsnum" where
  "num_mul (Num a) (Num b) = Num (a * b)"
| "num_mul _ _ = NaN"

fun num_add :: "jsnum \<Rightarrow> jsnum \<Rightarrow> jsnum" where
  "num_add (Num a) (Num b) = Num (a + b)"
| "num_add _ _ = NaN"

text \<open>
  \<^verbatim>\<open>Number(v)\<close>. The conversion of a string to a number is the runtime's; it is the
  parameter \<open>s2n\<close>.
\<close>

fun to_number :: "(string \<Rightarrow> jsnum) \<Rightarrow> jsval \<Rightarrow> jsnum" where
  "to_number s2n JUndefined = NaN"
| "to_number s2n JNull = Num 0"
| "to_number s2n (JBool b) = Num (if b then 1 else 0)"
| "to_number s2n (JNum n) = n"
| "to_number s2n (JStr s) = s2n s"

text \<open>
  \<^verbatim>\<open>String.prototype.toLowerCase\<close> is the runtime's: where the program calls it, the
  model takes it as the parameter \<open>lc\<close>, so that what is proved holds for the real one.
  \<open>ascii_lower\<close> lowers the ASCII letters and leaves every other byte as it is; it is
  what the flag \<^verbatim>\<open>i\<close> of a regular expression does to an ASCII pattern, and the
  examples use it for \<open>lc\<close>.
\<close>

definition lower_char :: "char \<Rightarrow> char" where
  "lower_char c =
     (case map_of (zip ''ABCDEFGHIJKLMNOPQRSTUVWXYZ'' ''abcdefghijklmnopqrstuvwxyz'') c of
        Some l \<Rightarrow> l
      | None \<Rightarrow> c)"

definition ascii_lower :: "string \<Rightarrow> string" where
  "ascii_lower s = map lower_char s"

text \<open>The class \<^verbatim>\<open>\s\<close> of a regular expression, on bytes.\<close>

definition is_space :: "char \<Rightarrow> bool" where
  "is_space c = ((of_char c :: nat) \<in> {9, 10, 11, 12, 13, 32, 160})"

text \<open>\<^verbatim>\<open>s.replace(/^Bearer\s+/i, '')\<close>.\<close>

definition strip_bearer :: "string \<Rightarrow> string" where
  "strip_bearer s =
     (if ascii_lower (take 6 s) = ''bearer''
         \<and> (case drop 6 s of [] \<Rightarrow> False | c # _ \<Rightarrow> is_space c)
      then dropWhile is_space (drop 6 s) else s)"

text \<open>The decimal digits of a number, as a template literal prints \<^verbatim>\<open>Date.now()\<close>.\<close>

definition digit_char :: "nat \<Rightarrow> char" where
  "digit_char d = ''0123456789'' ! d"

fun decimal :: "nat \<Rightarrow> string" where
  "decimal n = (if n < 10 then [digit_char n] else decimal (n div 10) @ [digit_char (n mod 10)])"

declare decimal.simps [simp del]

text \<open>
  A \<^verbatim>\<open>Map\<close> keeps its entries in insertion order; \<^verbatim>\<open>set\<close> on a key that is there
  replaces the value in place. This is an association list under \<^const>\<open>AList.update\<close>.
\<close>

type_synonym ('k, 'v) jsmap = "('k \<times> 'v) list"

definition map_get :: "('k, 'v) jsmap \<Rightarrow> 'k \<Rightarrow> 'v option" where
  "map_get m k = map_of m k"

definition map_set :: "'k \<Rightarrow> 'v \<Rightarrow> ('k, 'v) jsmap \<Rightarrow> ('k, 'v) jsmap" where
  "map_set k v m = AList.update k v m"

definition map_values :: "('k, 'v) jsmap \<Rightarrow> 'v list" where
  "map_values m = map snd m"

section \<open>The two record stores\<close>

text \<open>
  What a JSON text parses to: an array, or another value. Of a value that is not an
  array the program only ever uses whether it is truthy (\<^verbatim>\<open>orders || []\<close>); every other
  use of it throws. \<^verbatim>\<open>null\<close>, which is what an empty file counts as
  (\<^verbatim>\<open>JSON.parse(raw || 'null')\<close>), is \<open>Other False\<close>.
\<close>

datatype 'a document = Arr "'a list" | Other bool

text \<open>
  A backing file is absent, present but failing to be read or parsed, or holds a text
  that parses. What a write to it does is part of its state: \<^verbatim>\<open>fs.writeFileSync\<close> opens
  the file truncating it and then writes, so a write goes through, or fails at the open
  and leaves the file as it was, or fails after the open and leaves the file empty or
  with a part of the text, which does not parse.
\<close>

datatype 'a file_state = NoFile | Unreadable | Doc "'a document"

datatype write_result = Written | FailsAtOpen | FailsEmpty | FailsPartial

record 'a disk_file =
  fcontent :: "'a file_state"
  fwrite :: write_result

definition after_write :: "write_result \<Rightarrow> 'a list \<Rightarrow> 'a file_state \<Rightarrow> 'a file_state" where
  "after_write r data old =
     (case r of
        Written \<Rightarrow> Doc (Arr data)
      | FailsAtOpen \<Rightarrow> old
      | FailsEmpty \<Rightarrow> Doc (Other False)
      | FailsPartial \<Rightarrow> Unreadable)"

text \<open>The exception of a failed write, with its message.\<close>

datatype io_error = StorageFailure string

text \<open>
  \<^verbatim>\<open>readJson(filePath, fallback)\<close>, for the calls of the program, which all pass an array
  as fallback: a missing file is created with the fallback (a failure of that write is
  caught), everything thrown while reading or parsing is caught and gives the fallback,
  and a text that parses gives what it parses to, array or not.
\<close>

definition readJson :: "'a disk_file \<Rightarrow> 'a list \<Rightarrow> 'a document \<times> 'a disk_file" where
  "readJson f fallback =
     (case fcontent f of
        NoFile \<Rightarrow> (Arr fallback, f\<lparr>fcontent := after_write (fwrite f) fallback NoFile\<rparr>)
      | Unreadable \<Rightarrow> (Arr fallback, f)
      | Doc d \<Rightarrow> (d, f))"

text \<open>
  \<^verbatim>\<open>writeJson(filePath, data)\<close>: the exception of a failed write is caught and logged;
  the function always completes normally.
\<close>

definition writeJson :: "'a disk_file \<Rightarrow> 'a list \<Rightarrow> (io_error + unit) \<times> 'a disk_file" where
  "writeJson f data = (Inr (), f\<lparr>fcontent := after_write (fwrite f) data (fcontent f)\<rparr>)"

text \<open>
  What \<^verbatim>\<open>blobGet\<close> gives for a blob: it throws (not found, transport), resolves to
  nothing, or resolves to a status code and possibly a stream, whose text is empty,
  fails to be read or parsed, or parses. What \<^verbatim>\<open>blobPut\<close> does is \<open>bput_error\<close>: the
  message of the error it throws, or \<open>None\<close> when the upload goes through.
\<close>

datatype 'a payload = EmptyText | Malformed | Json "'a document"

datatype 'a blob_get = GetThrows | GetNothing | GetResult nat "'a payload option"

record 'a blob =
  bget :: "'a blob_get"
  bput_error :: "string option"

definition readBlobJson :: "bool \<Rightarrow> 'a blob \<Rightarrow> 'a list \<Rightarrow> 'a document" where
  "readBlobJson have_get b fallback =
     (if \<not> have_get then Arr fallback
      else case bget b of
        GetThrows \<Rightarrow> Arr fallback
      | GetNothing \<Rightarrow> Arr fallback
      | GetResult status stream \<Rightarrow>
          (if status = 304 \<or> stream = None then Arr fallback
           else if status \<noteq> 200 then Arr fallback
           else case stream of
             Some (Json d) \<Rightarrow> d
           | _ \<Rightarrow> Arr fallback))"

text \<open>\<^verbatim>\<open>writeBlobJson\<close>: a failed upload is logged and thrown again.\<close>

definition writeBlobJson :: "bool \<Rightarrow> 'a blob \<Rightarrow> 'a list \<Rightarrow> (io_error + unit) \<times> 'a blob" where
  "writeBlobJson have_put b data =
     (if \<not> have_put then (Inr (), b)
      else case bput_error b of
        None \<Rightarrow> (Inr (), b\<lparr>bget := GetResult 200 (Some (Json (Arr data)))\<rparr>)
      | Some m \<Rightarrow> (Inl (StorageFailure m), b))"

section \<open>The documents\<close>

text \<open>
  A product of the catalog (\<^verbatim>\<open>data/products.json\<close>), an entry of a submitted cart, a
  line of an order, the customer block, an order of the ledger and an admin account.
  A field that is absent is \<^const>\<open>JUndefined\<close>. \<open>c_other\<close> holds every further
  property a client put into a cart entry (a price, a name, a line total).
\<close>

record product =
  p_id :: jsval
  p_name :: jsval
  p_category :: jsval
  p_price :: jsnum
  p_size :: jsval
  p_color :: jsval

record cart_item =
  c_productId :: jsval
  c_quantity :: jsval
  c_size :: jsval
  c_color :: jsval
  c_other :: "(string \<times> jsval) list"

record line_item =
  i_productId :: jsval
  i_name :: jsval
  i_category :: jsval
  i_price :: jsnum
  i_quantity :: jsnum
  i_size :: jsval
  i_color :: jsval
  i_lineTotal :: jsnum

record customer =
  cu_name :: jsval
  cu_email :: jsval
  cu_phone :: jsval
  cu_address :: jsval
  cu_city :: jsval
  cu_postalCode :: jsval
  cu_country :: jsval

record order =
  o_id :: string
  o_createdAt :: string
  o_total :: jsnum
  o_items :: "line_item list"
  o_customer :: "customer option"

record admin =
  a_id :: string
  a_name :: string
  a_email :: string
  a_passwordHash :: string
  a_createdAt :: string

section \<open>Configuration and the persistence gateway\<close>

text \<open>
  The environment of the process, read once at start. \<open>blob_loaded\<close> says that
  \<^verbatim>\<open>blobPut\<close> and \<^verbatim>\<open>blobGet\<close> were obtained from the blob module.
\<close>

record config =
  USE_BLOB :: bool
  blob_loaded :: bool
  VERCEL :: bool
  ADMIN_ENABLED :: bool
  PRODUCTION_URL :: "string option"
  DASHBOARD_SYNC_SECRET :: "string option"

record world =
  products_file :: "product disk_file"
  orders_file :: "order disk_file"
  admins_file :: "admin disk_file"
  orders_blob :: "order blob"
  admins_blob :: "admin blob"

definition readOrders :: "config \<Rightarrow> world \<Rightarrow> order document \<times> world" where
  "readOrders cfg w =
     (if USE_BLOB cfg \<and> blob_loaded cfg
      then (readBlobJson (blob_loaded cfg) (orders_blob w) [], w)
      else (let (xs, f) = readJson (orders_file w) [] in (xs, w\<lparr>orders_file := f\<rparr>)))"

definition writeOrders :: "config \<Rightarrow> world \<Rightarrow> order list \<Rightarrow> (io_error + unit) \<times> world" where
  "writeOrders cfg w orders =
     (if USE_BLOB cfg \<and> blob_loaded cfg
      then (let (r, b) = writeBlobJson (blob_loaded cfg) (orders_blob w) orders
            in (r, w\<lparr>orders_blob := b\<rparr>))
      else (let (r, f) = writeJson (orders_file w) orders in (Inr (), w\<lparr>orders_file := f\<rparr>)))"

definition readAdmins :: "config \<Rightarrow> world \<Rightarrow> admin document \<times> world" where
  "readAdmins cfg w =
     (if USE_BLOB cfg \<and> blob_loaded cfg
      then (readBlobJson (blob_loaded cfg) (admins_blob w) [], w)
      else (let (xs, f) = readJson (admins_file w) [] in (xs, w\<lparr>admins_file := f\<rparr>)))"

definition writeAdmins :: "config \<Rightarrow> world \<Rightarrow> admin list \<Rightarrow> (io_error + unit) \<times> world" where
  "writeAdmins cfg w admins =
     (if USE_BLOB cfg \<and> blob_loaded cfg
      then (let (r, b) = writeBlobJson (blob_loaded cfg) (admins_blob w) admins
            in (r, w\<lparr>admins_blob := b\<rparr>))
      else (let (r, f) = writeJson (admins_file w) admins in (Inr (), w\<lparr>admins_file := f\<rparr>)))"

section \<open>Replies\<close>

text \<open>
  What a handler answers: a status code with a JSON body, or nothing, when an exception
  leaves the handler (its promise is rejected). The exceptions of the model are the
  failed blob upload and the \<^verbatim>\<open>TypeError\<close> of an array method called on a document that
  is not an array.
\<close>

datatype body =
    Error string
  | OrderPlaced string
  | Synced nat nat
  | Export "order document" "admin document"
  | Success

datatype reply = Reply nat body | Rejected

section \<open>Checkout\<close>

record checkout_body =
  cartItems :: "cart_item list option"
  customer :: "customer option"

text \<open>\<^verbatim>\<open>new Map(products.map((p) => [p.id, p]))\<close>.\<close>

definition productMap :: "product list \<Rightarrow> (jsval, product) jsmap" where
  "productMap products = foldl (\<lambda>m p. map_set (p_id p) p m) [] products"

text \<open>One line of an order, from a cart entry and the product it resolved to.\<close>

definition make_line :: "(string \<Rightarrow> jsnum) \<Rightarrow> cart_item \<Rightarrow> product \<Rightarrow> line_item" where
  "make_line s2n item product =
     (let quantity = num_or (to_number s2n (c_quantity item)) (Num 1);
          lineTotal = num_mul (p_price product) quantity
      in \<lparr> i_productId = p_id product,
           i_name = p_name product,
           i_category = p_category product,
           i_price = p_price product,
           i_quantity = quantity,
           i_size = js_or (c_size item) (js_or (p_size product) (JStr ''Medium'')),
           i_color = js_or (c_color item) (js_or (p_color product) (JStr [])),
           i_lineTotal = lineTotal \<rparr>)"

text \<open>The loop over the cart, on the running total \<open>tot\<close> and \<open>items\<close>.\<close>

fun cart_loop ::
  "(string \<Rightarrow> jsnum) \<Rightarrow> (jsval, product) jsmap \<Rightarrow> cart_item list \<Rightarrow>
     jsnum \<times> line_item list \<Rightarrow> jsnum \<times> line_item list" where
  "cart_loop s2n pm [] acc = acc"
| "cart_loop s2n pm (item # rest) (tot, items) =
     (case map_get pm (c_productId item) of
        None \<Rightarrow> cart_loop s2n pm rest (tot, items)
      | Some product \<Rightarrow>
          (let line = make_line s2n item product
           in cart_loop s2n pm rest (num_add tot (i_lineTotal line), items @ [line])))"

text \<open>
  The handler of \<^verbatim>\<open>POST /api/checkout\<close>, in the three stretches that its two
  \<^verbatim>\<open>await\<close>s separate. The first validates the body, reads the catalog and runs the
  loop; it ends in a reply or in what the rest of the handler needs. On a catalog that
  is not an array \<^verbatim>\<open>products.map\<close> throws.
\<close>

type_synonym prepared = "jsnum \<times> line_item list \<times> customer"

definition checkout_prepare ::
  "(string \<Rightarrow> jsnum) \<Rightarrow> checkout_body \<Rightarrow> world \<Rightarrow> (reply + prepared) \<times> world" where
  "checkout_prepare s2n b w =
     (case cartItems b of
        None \<Rightarrow> (Inl (Reply 400 (Error ''Cart is empty.'')), w)
      | Some cart \<Rightarrow>
          if cart = [] then (Inl (Reply 400 (Error ''Cart is empty.'')), w)
          else (case customer b of
             None \<Rightarrow> (Inl (Reply 400 (Error ''Missing required customer information.'')), w)
           | Some c \<Rightarrow>
               if \<not> truthy (cu_name c) \<or> \<not> truthy (cu_email c) \<or> \<not> truthy (cu_address c)
               then (Inl (Reply 400 (Error ''Missing required customer information.'')), w)
               else (let (doc, pf) = readJson (products_file w) [];
                         w1 = w\<lparr>products_file := pf\<rparr>
                     in case doc of
                          Other t \<Rightarrow> (Inl Rejected, w1)
                        | Arr products \<Rightarrow>
                            (let (tot, items) = cart_loop s2n (productMap products) cart (Num 0, [])
                             in if items = []
                                then (Inl (Reply 400 (Error ''Cart items are invalid.'')), w1)
                                else (Inr (tot, items, c), w1)))))"

text \<open>
  The order object, from the clock (\<^verbatim>\<open>Date.now()\<close> as \<open>now\<close>, the ISO text of
  \<^verbatim>\<open>new Date()\<close> as \<open>stamp\<close>).
\<close>

definition make_order :: "nat \<Rightarrow> string \<Rightarrow> prepared \<Rightarrow> order" where
  "make_order now stamp p =
     (case p of (tot, items, c) \<Rightarrow>
        \<lparr> o_id = ''ORD-'' @ decimal now,
          o_createdAt = stamp,
          o_total = tot,
          o_items = items,
          o_customer = Some
            \<lparr> cu_name = cu_name c,
              cu_email = cu_email c,
              cu_phone = js_or (cu_phone c) (JStr []),
              cu_address = cu_address c,
              cu_city = js_or (cu_city c) (JStr []),
              cu_postalCode = js_or (cu_postalCode c) (JStr []),
              cu_country = js_or (cu_country c) (JStr []) \<rparr> \<rparr>)"

text \<open>
  The last stretch, on the snapshot \<open>snapshot\<close> that \<^verbatim>\<open>readOrders\<close> gave: the order is
  pushed and the whole array written. The third component is the order handed to
  \<^verbatim>\<open>sendOrderConfirmationEmail\<close>. On a snapshot that is not an array \<^verbatim>\<open>orders.push\<close>
  throws, and a failed blob upload leaves the handler as an exception.
\<close>

definition checkout_commit ::
  "config \<Rightarrow> nat \<Rightarrow> string \<Rightarrow> prepared \<Rightarrow> order document \<Rightarrow> world \<Rightarrow> reply \<times> world \<times> order option" where
  "checkout_commit cfg now stamp p snapshot w =
     (case snapshot of
        Other t \<Rightarrow> (Rejected, w, None)
      | Arr orders \<Rightarrow>
          (let ord = make_order now stamp p;
               (r, w') = writeOrders cfg w (orders @ [ord])
           in case r of
                Inl e \<Rightarrow> (Rejected, w', None)
              | Inr u \<Rightarrow> (Reply 200 (OrderPlaced (o_id ord)), w', Some ord)))"

text \<open>The handler when nothing else runs between its stretches.\<close>

definition checkout ::
  "config \<Rightarrow> (string \<Rightarrow> jsnum) \<Rightarrow> nat \<Rightarrow> string \<Rightarrow> checkout_body \<Rightarrow> world \<Rightarrow>
     reply \<times> world \<times> order option" where
  "checkout cfg s2n now stamp b w =
     (case checkout_prepare s2n b w of
        (Inl r, w1) \<Rightarrow> (r, w1, None)
      | (Inr p, w1) \<Rightarrow>
          (let (orders, w2) = readOrders cfg w1 in checkout_commit cfg now stamp p orders w2))"

subsection \<open>Several checkouts in flight\<close>

text \<open>
  The process runs one stretch of one handler at a time and may switch handlers at an
  \<^verbatim>\<open>await\<close>; on the blob store the two awaits of the checkout are network calls.
  A checkout \<open>i\<close> arrives, runs up to the read of the ledger and is then suspended with
  its snapshot; when it is resumed (with the clock readings of that moment) it builds
  its order, writes and replies. The source has no lock or queue around this, so the
  model takes every sequence of events as a run. A \<open>Resume\<close> of a checkout that is not
  suspended does nothing.
\<close>

datatype event = Arrive nat checkout_body | Resume nat nat string

record server =
  s_world :: world
  s_pending :: "(nat \<times> prepared \<times> order document) list"
  s_replies :: "(nat \<times> reply) list"

fun step :: "config \<Rightarrow> (string \<Rightarrow> jsnum) \<Rightarrow> server \<Rightarrow> event \<Rightarrow> server" where
  "step cfg s2n s (Arrive i b) =
     (case checkout_prepare s2n b (s_world s) of
        (Inl r, w1) \<Rightarrow> s\<lparr>s_world := w1, s_replies := s_replies s @ [(i, r)]\<rparr>
      | (Inr p, w1) \<Rightarrow>
          (let (orders, w2) = readOrders cfg w1
           in s\<lparr>s_world := w2, s_pending := s_pending s @ [(i, p, orders)]\<rparr>))"
| "step cfg s2n s (Resume i now stamp) =
     (case map_of (s_pending s) i of
        None \<Rightarrow> s
      | Some (p, orders) \<Rightarrow>
          (let (r, w', mail) = checkout_commit cfg now stamp p orders (s_world s)
           in s\<lparr>s_world := w',
                s_pending := filter (\<lambda>e. fst e \<noteq> i) (s_pending s),
                s_replies := s_replies s @ [(i, r)]\<rparr>))"

definition run :: "config \<Rightarrow> (string \<Rightarrow> jsnum) \<Rightarrow> server \<Rightarrow> event list \<Rightarrow> server" where
  "run cfg s2n s evs = foldl (step cfg s2n) s evs"

text \<open>
  The ledger and the directory as the server reads them: the orders, or accounts, of the
  array that the read gives, and none when it gives something else.
\<close>

definition items_of :: "'a document \<Rightarrow> 'a list" where
  "items_of d = (case d of Arr xs \<Rightarrow> xs | Other t \<Rightarrow> [])"

definition is_array :: "'a document \<Rightarrow> bool" where
  "is_array d = (case d of Arr xs \<Rightarrow> True | Other t \<Rightarrow> False)"

definition ledger :: "config \<Rightarrow> world \<Rightarrow> order list" where
  "ledger cfg w = items_of (fst (readOrders cfg w))"

definition directory :: "config \<Rightarrow> world \<Rightarrow> admin list" where
  "directory cfg w = items_of (fst (readAdmins cfg w))"

text \<open>Writes to the active store of the ledger, or of the directory, go through.\<close>

definition orders_writable :: "config \<Rightarrow> world \<Rightarrow> bool" where
  "orders_writable cfg w =
     (if USE_BLOB cfg \<and> blob_loaded cfg then bput_error (orders_blob w) = None
      else fwrite (orders_file w) = Written)"

definition admins_writable :: "config \<Rightarrow> world \<Rightarrow> bool" where
  "admins_writable cfg w =
     (if USE_BLOB cfg \<and> blob_loaded cfg then bput_error (admins_blob w) = None
      else fwrite (admins_file w) = Written)"

text \<open>
  Checkouts served one after the other: each is given as its number, the two clock
  readings and its body.
\<close>

definition serial :: "(nat \<times> nat \<times> string \<times> checkout_body) list \<Rightarrow> event list" where
  "serial rs = concat (map (\<lambda>(i, now, stamp, b). [Arrive i b, Resume i now stamp]) rs)"

section \<open>Admin routes and synchronisation\<close>

record admin_request =
  rq_hostname :: "string option"
  rq_host_header :: "string option"
  rq_adminUserId :: "string option"

definition str_or :: "string option \<Rightarrow> string \<Rightarrow> string" where
  "str_or a b = (case a of None \<Rightarrow> b | Some s \<Rightarrow> if s = [] then b else s)"

definition isLocalRequest :: "admin_request \<Rightarrow> bool" where
  "isLocalRequest rq =
     (let host = takeWhile (\<lambda>c. c \<noteq> CHR '':'') (str_or (rq_hostname rq) (str_or (rq_host_header rq) []))
      in host = ''localhost'' \<or> host = ''127.0.0.1'')"

text \<open>
  The two middlewares in front of the admin API: \<^verbatim>\<open>blockAdminRoute\<close> and
  \<^verbatim>\<open>requireAdminApi\<close>. \<open>None\<close> lets the request through.
\<close>

definition blockAdminRoute :: "config \<Rightarrow> admin_request \<Rightarrow> reply option" where
  "blockAdminRoute cfg rq =
     (if ADMIN_ENABLED cfg \<or> isLocalRequest rq then None else Some (Reply 404 (Error ''Not found.'')))"

definition requireAdminApi :: "admin_request \<Rightarrow> reply option" where
  "requireAdminApi rq =
     (if str_or (rq_adminUserId rq) [] \<noteq> [] then None
      else Some (Reply 401 (Error ''Not authenticated as admin.'')))"

text \<open>
  \<^verbatim>\<open>GET /api/dashboard-sync\<close>, the export. The secret comes in the query or in the
  \<^verbatim>\<open>Authorization\<close> header.
\<close>

text \<open>\<^verbatim>\<open>d || []\<close> on a document.\<close>

definition or_empty :: "'a document \<Rightarrow> 'a document" where
  "or_empty d = (case d of Arr xs \<Rightarrow> Arr xs | Other t \<Rightarrow> if t then Other t else Arr [])"

record sync_request =
  q_secret :: jsval
  h_authorization :: "string option"

definition dashboard_sync :: "config \<Rightarrow> sync_request \<Rightarrow> world \<Rightarrow> reply \<times> world" where
  "dashboard_sync cfg rq w =
     (let secret = DASHBOARD_SYNC_SECRET cfg;
          provided = js_or (q_secret rq) (JStr (strip_bearer (str_or (h_authorization rq) [])))
      in if str_or secret [] = [] \<or> provided \<noteq> JStr (str_or secret [])
         then (Reply 401 (Error ''Unauthorized''), w)
         else (let (orders, w1) = readOrders cfg w;
                   (admins, w2) = readAdmins cfg w1
               in (Reply 200 (Export (or_empty orders) (or_empty admins)), w2)))"

text \<open>
  What \<^verbatim>\<open>fetch\<close> and \<^verbatim>\<open>response.json()\<close> give the importing side: an exception with
  its message, a response that is not ok with its status and text, or the parsed
  document, whose \<open>orders\<close> and \<open>admins\<close> are arrays or not.
\<close>

datatype fetched =
    FetchThrows string
  | FetchNotOk nat string
  | FetchData "order list option" "admin list option"

text \<open>What the fetch sees when the origin answered with \<open>r\<close>.\<close>

definition array_of :: "'a document \<Rightarrow> 'a list option" where
  "array_of d = (case d of Arr xs \<Rightarrow> Some xs | Other t \<Rightarrow> None)"

fun fetch_of_reply :: "reply \<Rightarrow> fetched" where
  "fetch_of_reply (Reply status (Export orders admins)) =
     (if status = 200 then FetchData (array_of orders) (array_of admins) else FetchNotOk status [])"
| "fetch_of_reply (Reply status (Error m)) = FetchNotOk status (''{\"error\":\"'' @ m @ ''\"}'')"
| "fetch_of_reply (Reply status b) = FetchNotOk status []"
| "fetch_of_reply Rejected = FetchThrows ''fetch failed''"

definition strip_slashes :: "string \<Rightarrow> string" where
  "strip_slashes s = rev (dropWhile (\<lambda>c. c = CHR ''/'') (rev s))"

text \<open>\<^verbatim>\<open>POST /api/admin/sync-from-production\<close>, the import.\<close>

definition sync_from_production ::
  "config \<Rightarrow> admin_request \<Rightarrow> fetched \<Rightarrow> world \<Rightarrow> reply \<times> world" where
  "sync_from_production cfg rq fetched w =
     (case blockAdminRoute cfg rq of Some r \<Rightarrow> (r, w) | None \<Rightarrow>
     (case requireAdminApi rq of Some r \<Rightarrow> (r, w) | None \<Rightarrow>
     (if VERCEL cfg
      then (Reply 400 (Error ''Sync from production is only available when running the dashboard locally.''), w)
      else
        let baseUrl = strip_slashes (str_or (PRODUCTION_URL cfg) []);
            secret = DASHBOARD_SYNC_SECRET cfg
        in if baseUrl = [] \<or> str_or secret [] = []
           then (Reply 400 (Error ''Set PRODUCTION_URL and DASHBOARD_SYNC_SECRET in .env.local to sync from production.''), w)
           else (case fetched of
              FetchThrows m \<Rightarrow> (Reply 500 (Error (str_or (Some m) ''Sync failed'')), w)
            | FetchNotOk status text \<Rightarrow> (Reply status (Error (str_or (Some text) ''Sync failed'')), w)
            | FetchData os as \<Rightarrow>
                (let orders = (case os of Some xs \<Rightarrow> xs | None \<Rightarrow> []);
                     admins = (case as of Some xs \<Rightarrow> xs | None \<Rightarrow> []);
                     (r1, w1) = writeOrders cfg w orders
                 in case r1 of
                      Inl (StorageFailure m) \<Rightarrow> (Reply 500 (Error (str_or (Some m) ''Sync failed'')), w1)
                    | Inr u \<Rightarrow>
                        (let (r2, w2) = writeAdmins cfg w1 admins
                         in case r2 of
                              Inl (StorageFailure m) \<Rightarrow> (Reply 500 (Error (str_or (Some m) ''Sync failed'')), w2)
                            | Inr u \<Rightarrow> (Reply 200 (Synced (length orders) (length admins)), w2)))))))"

section \<open>Customer aggregation\<close>

record customer_row =
  r_name :: jsval
  r_email :: string
  r_phone :: jsval
  r_address :: jsval
  r_city :: jsval
  r_postalCode :: jsval
  r_country :: jsval
  r_orders :: nat
  r_totalSpend :: jsnum

text \<open>\<^verbatim>\<open>order.customer?.f\<close> and \<^verbatim>\<open>order.customer?.email?.toLowerCase?.()\<close>.\<close>

definition cfield :: "(customer \<Rightarrow> jsval) \<Rightarrow> order \<Rightarrow> jsval" where
  "cfield f ord = (case o_customer ord of None \<Rightarrow> JUndefined | Some c \<Rightarrow> f c)"

definition order_email :: "(string \<Rightarrow> string) \<Rightarrow> order \<Rightarrow> string" where
  "order_email lc ord = (case cfield cu_email ord of JStr s \<Rightarrow> lc s | _ \<Rightarrow> [])"

text \<open>\<^verbatim>\<open>if (!existing.f && order.customer?.f) existing.f = order.customer.f\<close>.\<close>

definition backfill :: "jsval \<Rightarrow> jsval \<Rightarrow> jsval" where
  "backfill old new = (if \<not> truthy old \<and> truthy new then new else old)"

definition fresh_row :: "string \<Rightarrow> order \<Rightarrow> customer_row" where
  "fresh_row email ord =
     \<lparr> r_name = js_or (cfield cu_name ord) (JStr []),
       r_email = email,
       r_phone = js_or (cfield cu_phone ord) (JStr []),
       r_address = js_or (cfield cu_address ord) (JStr []),
       r_city = js_or (cfield cu_city ord) (JStr []),
       r_postalCode = js_or (cfield cu_postalCode ord) (JStr []),
       r_country = js_or (cfield cu_country ord) (JStr []),
       r_orders = 0,
       r_totalSpend = Num 0 \<rparr>"

definition absorb :: "customer_row \<Rightarrow> order \<Rightarrow> customer_row" where
  "absorb existing ord =
     existing
       \<lparr> r_orders := r_orders existing + 1,
         r_totalSpend := num_add (r_totalSpend existing) (num_or (o_total ord) (Num 0)),
         r_name := backfill (r_name existing) (cfield cu_name ord),
         r_phone := backfill (r_phone existing) (cfield cu_phone ord),
         r_address := backfill (r_address existing) (cfield cu_address ord),
         r_city := backfill (r_city existing) (cfield cu_city ord),
         r_postalCode := backfill (r_postalCode existing) (cfield cu_postalCode ord),
         r_country := backfill (r_country existing) (cfield cu_country ord) \<rparr>"

text \<open>The body of the loop over the orders, on the map \<^verbatim>\<open>byEmail\<close>.\<close>

definition aggregate_step ::
  "(string \<Rightarrow> string) \<Rightarrow> (string, customer_row) jsmap \<Rightarrow> order \<Rightarrow> (string, customer_row) jsmap" where
  "aggregate_step lc byEmail ord =
     (let email = order_email lc ord
      in if email = [] then byEmail
         else (let existing = (case map_get byEmail email of
                                 Some e \<Rightarrow> e
                               | None \<Rightarrow> fresh_row email ord)
               in map_set email (absorb existing ord) byEmail))"

definition aggregate :: "(string \<Rightarrow> string) \<Rightarrow> order list \<Rightarrow> customer_row list" where
  "aggregate lc orders = map_values (foldl (aggregate_step lc) [] orders)"

text \<open>
  The rows that \<^verbatim>\<open>GET /api/export-customers\<close> prints:
  \<^verbatim>\<open>Array.isArray(raw) ? raw : []\<close>, aggregated.
\<close>

definition export_customers :: "(string \<Rightarrow> string) \<Rightarrow> config \<Rightarrow> world \<Rightarrow> customer_row list" where
  "export_customers lc cfg w = aggregate lc (items_of (fst (readOrders cfg w)))"

section \<open>Admin accounts\<close>

text \<open>
  The body of a signup or login; a field that is absent is the empty string. On a
  directory that is not an array \<^verbatim>\<open>admins.find\<close> throws. The password hashing of
  \<^verbatim>\<open>bcryptjs\<close> is outside the program: \<open>bhash\<close> is \<^verbatim>\<open>bcrypt.hash(password, 10)\<close> and
  \<open>bcompare\<close> is \<^verbatim>\<open>bcrypt.compare\<close>. \<open>save\<close> is what
  \<^verbatim>\<open>req.session.save\<close> does: \<open>None\<close> when the session has no such function, else
  whether it went well. The third component of a result is the admin identifier put
  into the session.
\<close>

record credentials =
  f_name :: string
  f_email :: string
  f_password :: string

definition find_admin :: "(string \<Rightarrow> string) \<Rightarrow> string \<Rightarrow> admin list \<Rightarrow> admin option" where
  "find_admin lc email admins = find (\<lambda>a. lc (a_email a) = lc email) admins"

definition save_session :: "bool option \<Rightarrow> reply" where
  "save_session save =
     (case save of
        Some False \<Rightarrow> Reply 500 (Error ''Session error. Please try again.'')
      | _ \<Rightarrow> Reply 200 Success)"

definition signup ::
  "config \<Rightarrow> (string \<Rightarrow> string) \<Rightarrow> (string \<Rightarrow> string) \<Rightarrow> nat \<Rightarrow> string \<Rightarrow> bool option \<Rightarrow>
     admin_request \<Rightarrow> credentials \<Rightarrow> world \<Rightarrow> reply \<times> world \<times> string option" where
  "signup cfg lc bhash now stamp save rq b w =
     (case blockAdminRoute cfg rq of
        Some r \<Rightarrow> (r, w, None)
      | None \<Rightarrow>
         (if f_name b = [] \<or> f_email b = [] \<or> f_password b = []
          then (Reply 400 (Error ''Name, email and password are required.''), w, None)
          else
           (let (doc, w1) = readAdmins cfg w
            in (case doc of
                  Other t \<Rightarrow> (Rejected, w1, None)
                | Arr admins \<Rightarrow>
                   (case find_admin lc (f_email b) admins of
                      Some existing \<Rightarrow>
                        (Reply 409 (Error ''An account with this email already exists.''), w1, None)
                    | None \<Rightarrow>
                        (let adm = \<lparr> a_id = ''admin-'' @ decimal now,
                                     a_name = f_name b,
                                     a_email = f_email b,
                                     a_passwordHash = bhash (f_password b),
                                     a_createdAt = stamp \<rparr>;
                             (r, w2) = writeAdmins cfg w1 (admins @ [adm])
                         in (case r of
                               Inl e \<Rightarrow> (Rejected, w2, None)
                             | Inr u \<Rightarrow> (save_session save, w2, Some (a_id adm)))))))))"

definition login ::
  "config \<Rightarrow> (string \<Rightarrow> string) \<Rightarrow> (string \<Rightarrow> string \<Rightarrow> bool) \<Rightarrow> bool option \<Rightarrow>
     admin_request \<Rightarrow> credentials \<Rightarrow> world \<Rightarrow> reply \<times> world \<times> string option" where
  "login cfg lc bcompare save rq b w =
     (case blockAdminRoute cfg rq of
        Some r \<Rightarrow> (r, w, None)
      | None \<Rightarrow>
         (if f_email b = [] \<or> f_password b = []
          then (Reply 400 (Error ''Email and password are required.''), w, None)
          else
           (let (doc, w1) = readAdmins cfg w
            in (case doc of
                  Other t \<Rightarrow> (Rejected, w1, None)
                | Arr admins \<Rightarrow>
                   (case find_admin lc (f_email b) admins of
                      None \<Rightarrow> (Reply 401 (Error ''Invalid email or password.''), w1, None)
                    | Some adm \<Rightarrow>
                        (if \<not> bcompare (f_password b) (a_passwordHash adm)
                         then (Reply 401 (Error ''Invalid email or password.''), w1, None)
                         else (save_session save, w1, Some (a_id adm))))))))"

text \<open>No two accounts of a directory have emails that are equal up to letter case.\<close>

definition unique_emails :: "(string \<Rightarrow> string) \<Rightarrow> admin list \<Rightarrow> bool" where
  "unique_emails lc admins = distinct (map (\<lambda>a. lc (a_email a)) admins)"

section \<open>Notions used to state the properties\<close>

text \<open>The catalog as the checkout reads it: the products of the array, if it is one.\<close>

definition catalog :: "world \<Rightarrow> product list" where
  "catalog w = items_of (fst (readJson (products_file w) []))"

text \<open>
  The read of the catalog, of the ledger or of the directory gives an array: the file is
  missing or cannot be read or parsed (the read then gives the empty array), or it
  holds an array.
\<close>

definition catalog_is_array :: "world \<Rightarrow> bool" where
  "catalog_is_array w = is_array (fst (readJson (products_file w) []))"

definition ledger_is_array :: "config \<Rightarrow> world \<Rightarrow> bool" where
  "ledger_is_array cfg w = is_array (fst (readOrders cfg w))"

definition directory_is_array :: "config \<Rightarrow> world \<Rightarrow> bool" where
  "directory_is_array cfg w = is_array (fst (readAdmins cfg w))"

text \<open>
  The lines of the cart entries that resolve against the product map, in the order of
  the cart: what the loop appends to \<open>items\<close>.
\<close>

fun resolved_lines ::
  "(string \<Rightarrow> jsnum) \<Rightarrow> (jsval, product) jsmap \<Rightarrow> cart_item list \<Rightarrow> line_item list" where
  "resolved_lines s2n pm [] = []"
| "resolved_lines s2n pm (item # rest) =
     (case map_get pm (c_productId item) of
        None \<Rightarrow> resolved_lines s2n pm rest
      | Some p \<Rightarrow> make_line s2n item p # resolved_lines s2n pm rest)"

text \<open>A number that is a positive integer, as the specification wants a quantity to be.\<close>

definition positive_integer :: "jsnum \<Rightarrow> bool" where
  "positive_integer q = (case q of NaN \<Rightarrow> False | Num r \<Rightarrow> 0 < r \<and> r \<in> \<int>)"

text \<open>
  For the aggregation, in the words of the specification. The identity key of an order
  is the lowercased email of its customer, and empty when the order has no customer or
  the email is not a string. The orders of one key are taken in scan order. An order
  adds its total to the spend, and nothing when the total is missing, not a number or 0
  (\<^verbatim>\<open>order.total || 0\<close>). The value of a field is the first non-empty one among the
  values of the orders, and the empty string when there is none.
\<close>

definition lowercased_email :: "(string \<Rightarrow> string) \<Rightarrow> order \<Rightarrow> string" where
  "lowercased_email lc ord =
     (case o_customer ord of
        None \<Rightarrow> []
      | Some c \<Rightarrow> (case cu_email c of JStr s \<Rightarrow> lc s | _ \<Rightarrow> []))"

definition orders_of :: "(string \<Rightarrow> string) \<Rightarrow> string \<Rightarrow> order list \<Rightarrow> order list" where
  "orders_of lc email orders = filter (\<lambda>ord. lowercased_email lc ord = email) orders"

definition spend :: "order \<Rightarrow> jsnum" where
  "spend ord = num_or (o_total ord) (Num 0)"

definition first_nonempty :: "jsval list \<Rightarrow> jsval" where
  "first_nonempty vs = (case find truthy vs of Some v \<Rightarrow> v | None \<Rightarrow> JStr [])"

text \<open>What the loop of the aggregation does to the row of one email.\<close>

definition row_step :: "string \<Rightarrow> customer_row option \<Rightarrow> order \<Rightarrow> customer_row option" where
  "row_step email r ord =
     Some (absorb (case r of Some e \<Rightarrow> e | None \<Rightarrow> fresh_row email ord) ord)"

text \<open>
  For runs of checkouts: a body is accepted when the first stretch of the handler lets
  it through (cart, customer and at least one known product); \<open>serve\<close> is one checkout
  handled from its arrival to its reply with nothing in between.
\<close>

definition accepted :: "(string \<Rightarrow> jsnum) \<Rightarrow> world \<Rightarrow> checkout_body \<Rightarrow> bool" where
  "accepted s2n w b = (case fst (checkout_prepare s2n b w) of Inl r \<Rightarrow> False | Inr p \<Rightarrow> True)"

definition serve ::
  "config \<Rightarrow> (string \<Rightarrow> jsnum) \<Rightarrow> server \<Rightarrow> nat \<times> nat \<times> string \<times> checkout_body \<Rightarrow> server" where
  "serve cfg s2n s rq =
     (case rq of (i, now, stamp, b) \<Rightarrow>
        (case checkout cfg s2n now stamp b (s_world s) of
           (r, w', mail) \<Rightarrow> s\<lparr>s_world := w', s_replies := s_replies s @ [(i, r)]\<rparr>))"

section \<open>Example data\<close>

text \<open>
  A configuration on the local files and one on the blob store, a catalog of one product,
  a customer, and a state in which every store holds an empty collection and can be
  written.
\<close>

definition cfg_local :: config where
  "cfg_local = \<lparr> USE_BLOB = False, blob_loaded = False, VERCEL = False, ADMIN_ENABLED = True,
                 PRODUCTION_URL = Some ''https://shop.example/'',
                 DASHBOARD_SYNC_SECRET = Some ''s3cret'' \<rparr>"

definition cfg_blob :: config where
  "cfg_blob = cfg_local\<lparr>USE_BLOB := True, blob_loaded := True\<rparr>"

definition p1 :: product where
  "p1 = \<lparr> p_id = JStr ''p1'', p_name = JStr ''Shirt'', p_category = JStr ''tops'',
          p_price = Num 10, p_size = JUndefined, p_color = JUndefined \<rparr>"

definition entry :: "jsval \<Rightarrow> jsval \<Rightarrow> cart_item" where
  "entry k q = \<lparr> c_productId = k, c_quantity = q, c_size = JUndefined, c_color = JUndefined,
                c_other = [] \<rparr>"

definition cust_a :: customer where
  "cust_a = \<lparr> cu_name = JStr ''A'', cu_email = JStr ''a@x.com'', cu_phone = JUndefined,
              cu_address = JStr ''1 Main St'', cu_city = JUndefined, cu_postalCode = JUndefined,
              cu_country = JUndefined \<rparr>"

definition cart_body :: "cart_item list \<Rightarrow> checkout_body" where
  "cart_body cart = \<lparr> cartItems = Some cart, customer = Some cust_a \<rparr>"

definition world0 :: world where
  "world0 = \<lparr> products_file = \<lparr> fcontent = Doc (Arr [p1]), fwrite = Written \<rparr>,
              orders_file = \<lparr> fcontent = Doc (Arr []), fwrite = Written \<rparr>,
              admins_file = \<lparr> fcontent = Doc (Arr []), fwrite = Written \<rparr>,
              orders_blob = \<lparr> bget = GetResult 200 (Some (Json (Arr []))), bput_error = None \<rparr>,
              admins_blob = \<lparr> bget = GetResult 200 (Some (Json (Arr []))), bput_error = None \<rparr> \<rparr>"

text \<open>A string conversion for the examples, none of which submits a numeric string.\<close>

definition no_numeric_strings :: "string \<Rightarrow> jsnum" where
  "no_numeric_strings s = NaN"

definition adm1 :: admin where
  "adm1 = \<lparr> a_id = ''admin-1'', a_name = ''Ann'', a_email = ''Ann@X.com'',
            a_passwordHash = ''hash:secret'', a_createdAt = ''t0'' \<rparr>"

definition local_rq :: admin_request where
  "local_rq = \<lparr> rq_hostname = Some ''localhost'', rq_host_header = None,
                rq_adminUserId = Some ''admin-1'' \<rparr>"

definition ord_a :: "string \<Rightarrow> rat \<Rightarrow> order" where
  "ord_a i t = \<lparr> o_id = i, o_createdAt = ''t0'', o_total = Num t, o_items = [],
                 o_customer = Some cust_a \<rparr>"

text \<open>The same customer, with the email in capitals and no name given.\<close>

definition ord_caps :: "string \<Rightarrow> rat \<Rightarrow> order" where
  "ord_caps i t = \<lparr> o_id = i, o_createdAt = ''t0'', o_total = Num t, o_items = [],
                    o_customer = Some (cust_a\<lparr>cu_name := JStr [], cu_email := JStr ''A@X.COM''\<rparr>) \<rparr>"

text \<open>The order of the example checkout: two shirts at 10.\<close>

definition order_1 :: order where
  "order_1 = \<lparr>o_id = ''ORD-1700000000000'', o_createdAt = ''t0'', o_total = Num 20,
            o_items = [\<lparr>i_productId = JStr ''p1'', i_name = JStr ''Shirt'', i_category = JStr ''tops'',
               i_price = Num 10, i_quantity = Num 2, i_size = JStr ''Medium'', i_color = JStr [],
               i_lineTotal = Num 20\<rparr>],
            o_customer = Some \<lparr>cu_name = JStr ''A'', cu_email = JStr ''a@x.com'', cu_phone = JStr [],
               cu_address = JStr ''1 Main St'', cu_city = JStr [], cu_postalCode = JStr [],
               cu_country = JStr []\<rparr>\<rparr>"

definition world_adm :: world where
  "world_adm = world0\<lparr>admins_file := \<lparr>fcontent = Doc (Arr [adm1]), fwrite = Written\<rparr>\<rparr>"

text \<open>A stand-in for the comparison of a password with a hash.\<close>

definition hash_matches :: "string \<Rightarrow> string \<Rightarrow> bool" where
  "hash_matches pw h = (h = ''hash:'' @ pw)"

text \<open>
  Two orders of the same customer, with totals 20 and 30, whose emails differ in letter
  case only.
\<close>

definition two_orders :: "order list" where
  "two_orders = [ord_caps ''ORD-1'' 20, ord_a ''ORD-2'' 30]"

text \<open>
  An origin on the blob store that holds the two orders and one account; a local
  destination that holds another order and another account in files that can be
  written; and the same destination with files that cannot be opened for writing (a
  read-only file system).
\<close>

definition origin_world :: world where
  "origin_world = world0
     \<lparr> orders_blob := \<lparr> bget = GetResult 200 (Some (Json (Arr two_orders))), bput_error = None \<rparr>,
       admins_blob := \<lparr> bget = GetResult 200 (Some (Json (Arr [adm1]))), bput_error = None \<rparr> \<rparr>"

definition adm2 :: admin where
  "adm2 = \<lparr> a_id = ''admin-2'', a_name = ''Loc'', a_email = ''loc@x.com'',
            a_passwordHash = ''hash:pw'', a_createdAt = ''t0'' \<rparr>"

definition dest_world :: world where
  "dest_world = world0
     \<lparr> orders_file := \<lparr> fcontent = Doc (Arr [ord_a ''ORD-9'' 7]), fwrite = Written \<rparr>,
       admins_file := \<lparr> fcontent = Doc (Arr [adm2]), fwrite = Written \<rparr> \<rparr>"

definition locked_world :: world where
  "locked_world = world0
     \<lparr> orders_file := \<lparr> fcontent = Doc (Arr [ord_a ''ORD-9'' 7]), fwrite = FailsAtOpen \<rparr>,
       admins_file := \<lparr> fcontent = Doc (Arr [adm2]), fwrite = FailsAtOpen \<rparr> \<rparr>"

text \<open>A server with nothing in flight, and two checkouts of two shirts each.\<close>

definition server0 :: server where
  "server0 = \<lparr> s_world = world0, s_pending = [], s_replies = [] \<rparr>"

definition shirt_body :: checkout_body where
  "shirt_body = cart_body [entry (JStr ''p1'') (JNum (Num 2))]"

definition two_requests :: "(nat \<times> nat \<times> string \<times> checkout_body) list" where
  "two_requests = [(1, 1700000000000, ''t0'', shirt_body), (2, 1700000000001, ''t1'', shirt_body)]"

text \<open>A state whose blob store refuses every upload.\<close>

definition full_world :: world where
  "full_world = world0
     \<lparr> orders_blob := \<lparr> bget = GetResult 200 (Some (Json (Arr []))), bput_error = Some ''quota'' \<rparr>,
       admins_blob := \<lparr> bget = GetResult 200 (Some (Json (Arr []))), bput_error = Some ''quota'' \<rparr> \<rparr>"

lemmas ex_defs = cfg_local_def cfg_blob_def p1_def entry_def cust_a_def cart_body_def world0_def
  no_numeric_strings_def adm1_def local_rq_def ord_a_def ord_caps_def

section \<open>Properties\<close>

subsection \<open>The cart loop and the product map\<close>

lemma cart_loop_eq:
  "cart_loop s2n pm cart (t, acc) =
     (foldl num_add t (map i_lineTotal (resolved_lines s2n pm cart)), acc @ resolved_lines s2n pm cart)"
  by (induction cart arbitrary: t acc) (auto simp: Let_def split: option.splits)

lemma productMap_fold_Some:
  "map_of (foldl (\<lambda>m p. map_set (p_id p) p m) m ps) k = Some q \<Longrightarrow>
     map_of m k = Some q \<or> (q \<in> set ps \<and> p_id q = k)"
proof (induction ps arbitrary: m)
  case Nil
  then show ?case by simp
next
  case (Cons a ps)
  from Cons.prems
  have "map_of (foldl (\<lambda>m p. map_set (p_id p) p m) (map_set (p_id a) a m) ps) k = Some q"
    by simp
  from Cons.IH [OF this]
  have "map_of (map_set (p_id a) a m) k = Some q \<or> (q \<in> set ps \<and> p_id q = k)" .
  then show ?case
    by (auto simp: map_set_def update_conv' split: if_splits)
qed

lemma productMap_fold_None:
  "map_of (foldl (\<lambda>m p. map_set (p_id p) p m) m ps) k = None \<longleftrightarrow>
     map_of m k = None \<and> k \<notin> p_id ` set ps"
proof (induction ps arbitrary: m)
  case Nil
  then show ?case by simp
next
  case (Cons a ps)
  have "map_of (map_set (p_id a) a m) k = None \<longleftrightarrow> map_of m k = None \<and> k \<noteq> p_id a"
    by (simp add: map_set_def update_conv')
  with Cons.IH [of "map_set (p_id a) a m"] show ?case
    by auto
qed

lemma productMap_Some:
  "map_get (productMap ps) k = Some q \<Longrightarrow> q \<in> set ps \<and> p_id q = k"
  using productMap_fold_Some [of "[]" ps k q]
  by (simp add: map_get_def productMap_def)

lemma productMap_None:
  "map_get (productMap ps) k = None \<longleftrightarrow> k \<notin> p_id ` set ps"
  using productMap_fold_None [of "[]" ps k]
  by (simp add: map_get_def productMap_def)

lemma resolved_lines_sources:
  "line \<in> set (resolved_lines s2n pm cart) \<Longrightarrow>
     \<exists>item \<in> set cart. \<exists>p. map_get pm (c_productId item) = Some p \<and> line = make_line s2n item p"
  by (induction cart) (auto split: option.splits)

lemma resolved_lines_Nil:
  "resolved_lines s2n pm cart = [] \<longleftrightarrow> (\<forall>item \<in> set cart. map_get pm (c_productId item) = None)"
  by (induction cart) (auto split: option.splits)



lemma checkout_placed:
  assumes "checkout cfg s2n now stamp b w = (r, w', Some ord)"
  shows "\<exists>cart c. cartItems b = Some cart \<and> customer b = Some c
           \<and> o_items ord = resolved_lines s2n (productMap (catalog w)) cart
           \<and> o_total ord = foldl num_add (Num 0) (map i_lineTotal (o_items ord))
           \<and> o_id ord = ''ORD-'' @ decimal now"
  using assms
  by (auto simp: checkout_def checkout_prepare_def checkout_commit_def make_order_def cart_loop_eq
        catalog_def items_of_def Let_def
      split: option.splits if_splits prod.splits sum.splits document.splits)

subsection \<open>What the gateway keeps\<close>

lemma fwrite_readJson [simp]: "fwrite (snd (readJson f fb)) = fwrite f"
  by (simp add: readJson_def split: file_state.splits)

lemma fwrite_writeJson [simp]: "fwrite (snd (writeJson f d)) = fwrite f"
  by (simp add: writeJson_def)

lemma readJson_again [simp]:
  "items_of (fst (readJson (snd (readJson f [])) [])) = items_of (fst (readJson f []))"
  by (simp add: readJson_def after_write_def items_of_def
      split: file_state.splits write_result.splits)

lemma readJson_array_keeps:
  "fst (readJson f []) = Arr xs \<Longrightarrow> xs \<noteq> [] \<Longrightarrow> snd (readJson f []) = f"
  by (auto simp: readJson_def split: file_state.splits)

lemma prepare_world:
  "snd (checkout_prepare s2n b w) = w \<or>
   snd (checkout_prepare s2n b w) = w\<lparr>products_file := snd (readJson (products_file w) [])\<rparr>"
  by (auto simp: checkout_prepare_def Let_def split: option.splits prod.splits document.splits)

lemma orders_writable_prepare [simp]:
  "orders_writable cfg (snd (checkout_prepare s2n b w)) = orders_writable cfg w"
  using prepare_world [of s2n b w] by (auto simp: orders_writable_def)

lemma readOrders_prepare [simp]:
  "fst (readOrders cfg (snd (checkout_prepare s2n b w))) = fst (readOrders cfg w)"
  using prepare_world [of s2n b w] by (auto simp: readOrders_def split: prod.splits)

lemma ledger_prepare [simp]: "ledger cfg (snd (checkout_prepare s2n b w)) = ledger cfg w"
  by (simp add: ledger_def)

lemma catalog_prepare [simp]: "catalog (snd (checkout_prepare s2n b w)) = catalog w"
  using prepare_world [of s2n b w] by (auto simp: catalog_def)

lemma orders_writable_read [simp]:
  "orders_writable cfg (snd (readOrders cfg w)) = orders_writable cfg w"
  by (cases "readJson (orders_file w) []")
     (auto simp: orders_writable_def readOrders_def dest: arg_cong [where f = "\<lambda>p. fwrite (snd p)"])

lemma fst_case_prod: "fst (case p of (x, y) \<Rightarrow> (x, g y)) = fst p"
  by (cases p) simp

lemma snd_case_prod: "snd (case p of (x, y) \<Rightarrow> (x, g y)) = g (snd p)"
  by (cases p) simp

lemma ledger_read [simp]: "ledger cfg (snd (readOrders cfg w)) = ledger cfg w"
  by (simp add: ledger_def readOrders_def fst_case_prod snd_case_prod)

lemma catalog_read [simp]: "catalog (snd (readOrders cfg w)) = catalog w"
  by (simp add: catalog_def readOrders_def split: prod.splits)

lemma products_read [simp]: "products_file (snd (readOrders cfg w)) = products_file w"
  by (simp add: readOrders_def split: prod.splits)

lemma writeOrders_ok:
  "orders_writable cfg w \<Longrightarrow>
     fst (writeOrders cfg w xs) = Inr ()
     \<and> fst (readOrders cfg (snd (writeOrders cfg w xs))) = Arr xs
     \<and> ledger cfg (snd (writeOrders cfg w xs)) = xs"
  by (simp add: orders_writable_def writeOrders_def writeBlobJson_def writeJson_def ledger_def
        readOrders_def readBlobJson_def readJson_def after_write_def items_of_def)

lemma orders_writable_write [simp]:
  "orders_writable cfg (snd (writeOrders cfg w xs)) = orders_writable cfg w"
  by (simp add: orders_writable_def writeOrders_def writeBlobJson_def writeJson_def
      split: option.splits)

lemma catalog_write [simp]: "catalog (snd (writeOrders cfg w xs)) = catalog w"
  by (simp add: catalog_def writeOrders_def writeBlobJson_def writeJson_def
      split: option.splits prod.splits)

lemma products_write [simp]: "products_file (snd (writeOrders cfg w xs)) = products_file w"
  by (simp add: writeOrders_def writeBlobJson_def writeJson_def
      split: option.splits prod.splits)

subsection \<open>Checkout\<close>

lemma checkout_prepare_some:
  "cartItems b = Some cart \<Longrightarrow> checkout_prepare s2n b w =
     (if cart = [] then (Inl (Reply 400 (Error ''Cart is empty.'')), w)
      else (case customer b of
         None \<Rightarrow> (Inl (Reply 400 (Error ''Missing required customer information.'')), w)
       | Some c \<Rightarrow>
           if \<not> truthy (cu_name c) \<or> \<not> truthy (cu_email c) \<or> \<not> truthy (cu_address c)
           then (Inl (Reply 400 (Error ''Missing required customer information.'')), w)
           else if \<not> catalog_is_array w
           then (Inl Rejected, w\<lparr>products_file := snd (readJson (products_file w) [])\<rparr>)
           else if resolved_lines s2n (productMap (catalog w)) cart = []
           then (Inl (Reply 400 (Error ''Cart items are invalid.'')),
                 w\<lparr>products_file := snd (readJson (products_file w) [])\<rparr>)
           else (Inr (foldl num_add (Num 0)
                        (map i_lineTotal (resolved_lines s2n (productMap (catalog w)) cart)),
                      resolved_lines s2n (productMap (catalog w)) cart, c),
                 w\<lparr>products_file := snd (readJson (products_file w) [])\<rparr>)))"
  by (simp add: checkout_prepare_def cart_loop_eq catalog_def catalog_is_array_def is_array_def
        items_of_def Let_def
      split: option.splits prod.splits document.splits)




lemma make_line_fields:
  "i_price (make_line s2n item p) = p_price p"
  "i_productId (make_line s2n item p) = p_id p"
  "i_quantity (make_line s2n item p) = num_or (to_number s2n (c_quantity item)) (Num 1)"
  "i_lineTotal (make_line s2n item p) = num_mul (p_price p) (num_or (to_number s2n (c_quantity item)) (Num 1))"
  by (simp_all add: make_line_def Let_def)


lemma num_or_one:
  "num_or q (Num 1) = (if q = NaN \<or> q = Num 0 then Num 1 else q)"
  by (cases q) (simp_all add: num_or_def)

text \<open>
  Claim C5, as amended. The quantity stored for an accepted cart entry is the number
  that the submitted quantity converts to, unless that is \<open>NaN\<close> or 0, when it is 1: it
  is 1 when the quantity is absent or not numeric, and it is never 0 and never \<open>NaN\<close>.
  (A negative or fractional quantity is stored as submitted.)
\<close>

theorem quantity_coercion:
  assumes "checkout cfg s2n now stamp b w = (r, w', Some ord)" and "cartItems b = Some cart"
    and "line \<in> set (o_items ord)"
  shows "(\<exists>item \<in> set cart.
            i_productId line = c_productId item
            \<and> i_quantity line =
                (if to_number s2n (c_quantity item) = NaN \<or> to_number s2n (c_quantity item) = Num 0
                 then Num 1 else to_number s2n (c_quantity item))
            \<and> (c_quantity item = JUndefined \<longrightarrow> i_quantity line = Num 1))
         \<and> i_quantity line \<noteq> NaN \<and> i_quantity line \<noteq> Num 0"
proof -
  from checkout_placed [OF assms(1)] assms(2)
  have items: "o_items ord = resolved_lines s2n (productMap (catalog w)) cart"
    by auto
  with assms(3) have "line \<in> set (resolved_lines s2n (productMap (catalog w)) cart)"
    by simp
  from resolved_lines_sources [OF this] obtain item p where
      item: "item \<in> set cart"
      and p: "map_get (productMap (catalog w)) (c_productId item) = Some p"
      and line: "line = make_line s2n item p"
    by blast
  from p have pid: "i_productId line = c_productId item"
    using productMap_Some [OF p] by (simp add: line make_line_fields)
  have q: "i_quantity line =
      (if to_number s2n (c_quantity item) = NaN \<or> to_number s2n (c_quantity item) = Num 0
       then Num 1 else to_number s2n (c_quantity item))"
    by (simp only: line make_line_fields num_or_one)
  have nz: "i_quantity line \<noteq> NaN \<and> i_quantity line \<noteq> Num 0"
    unfolding q by simp
  have u: "c_quantity item = JUndefined \<longrightarrow> i_quantity line = Num 1"
    unfolding q by simp
  from item pid q u have "\<exists>item \<in> set cart.
            i_productId line = c_productId item
            \<and> i_quantity line =
                (if to_number s2n (c_quantity item) = NaN \<or> to_number s2n (c_quantity item) = Num 0
                 then Num 1 else to_number s2n (c_quantity item))
            \<and> (c_quantity item = JUndefined \<longrightarrow> i_quantity line = Num 1)"
    by (intro bexI [of _ item] conjI)
  with nz show ?thesis by (intro conjI) simp_all
qed


subsection \<open>The example checkout\<close>

lemmas checkout_eval = checkout_def checkout_prepare_def checkout_commit_def make_order_def
  readJson_def productMap_def map_set_def map_get_def make_line_def num_or_def js_or_def
  readOrders_def writeOrders_def writeJson_def writeBlobJson_def readBlobJson_def
  decimal.simps digit_char_def Let_def catalog_def after_write_def items_of_def is_array_def
  catalog_is_array_def

lemma checkout_example:
  "checkout cfg_local no_numeric_strings 1700000000000 ''t0''
     (cart_body [entry (JStr ''p1'') (JNum (Num 2))]) world0
   = (Reply 200 (OrderPlaced ''ORD-1700000000000''),
      world0\<lparr>orders_file := \<lparr>fcontent = Doc (Arr [order_1]), fwrite = Written\<rparr>\<rparr>, Some order_1)"
  by (simp add: ex_defs order_1_def checkout_eval)


theorem quantity_coercion_witness:
  "i_quantity (hd (o_items order_1)) \<noteq> NaN \<and> i_quantity (hd (o_items order_1)) \<noteq> Num 0"
proof -
  have l: "hd (o_items order_1) \<in> set (o_items order_1)"
    by (simp add: order_1_def)
  have c: "cartItems (cart_body [entry (JStr ''p1'') (JNum (Num 2))])
             = Some [entry (JStr ''p1'') (JNum (Num 2))]"
    by (simp add: cart_body_def)
  from quantity_coercion [OF checkout_example c l]
  show ?thesis by blast
qed


lemma five_halves_not_int: "(5 / 2 :: rat) \<notin> \<int>"
proof
  assume "(5 / 2 :: rat) \<in> \<int>"
  then obtain z :: int where "(5 / 2 :: rat) = of_int z"
    by (auto elim: Ints_cases)
  then have "(of_int 5 :: rat) = of_int (2 * z)"
    by simp
  then have "5 = 2 * z"
    by (simp only: of_int_eq_iff)
  then show False
    by presburger
qed

text \<open>
  Claim C5 as stated fails: a cart entry with quantity -3 and one with quantity 5/2 are
  accepted, and the order stores these two quantities; neither is a positive integer.
\<close>

theorem quantity_positive_integer_counterexample:
  "map_option (\<lambda>ord. map i_quantity (o_items ord))
     (snd (snd (checkout cfg_local no_numeric_strings 1700000000000 ''t0''
        (cart_body [entry (JStr ''p1'') (JNum (Num (- 3))), entry (JStr ''p1'') (JNum (Num (5 / 2)))])
        world0)))
   = Some [Num (- 3), Num (5 / 2)]
   \<and> \<not> positive_integer (Num (- 3)) \<and> \<not> positive_integer (Num (5 / 2))"
  by (simp add: ex_defs checkout_eval positive_integer_def five_halves_not_int)

subsection \<open>Storage failures\<close>

text \<open>
  What the two stores do on a failure. A failed upload to the blob store is reported to
  the caller as a storage failure and leaves the blob as it was. A write of a local file
  always completes normally; when it fails the file is as it was, empty or cut short,
  according to where the write failed. A read of a local file that is absent or cannot
  be read or parsed gives the empty collection, and so does every blob read that does
  not deliver a parsed document with status 200.
\<close>

lemma blob_write_failure_reported:
  "bput_error b = Some m \<Longrightarrow> writeBlobJson True b d = (Inl (StorageFailure m), b)"
  by (simp add: writeBlobJson_def)

lemma local_write_never_reported: "fst (writeJson f d) = Inr ()"
  by (simp add: writeJson_def)

lemma local_write_failure_content:
  "fwrite f \<noteq> Written \<Longrightarrow>
     fcontent (snd (writeJson f d)) = fcontent f
     \<or> fcontent (snd (writeJson f d)) = Doc (Other False)
     \<or> fcontent (snd (writeJson f d)) = Unreadable"
  by (cases "fwrite f") (simp_all add: writeJson_def after_write_def)

lemma failed_reads_empty:
  "fcontent f = NoFile \<or> fcontent f = Unreadable \<Longrightarrow> fst (readJson f []) = Arr []"
  "\<forall>d. bget b \<noteq> GetResult 200 (Some (Json d)) \<Longrightarrow> readBlobJson have_get b [] = Arr []"
  by (auto simp: readJson_def readBlobJson_def
      split: blob_get.splits option.splits payload.splits)

text \<open>
  Claim C4. The claim holds for the blob store and fails for the local store. On a
  destination whose orders file cannot be opened for writing, the write of a ledger of
  one new order completes without a storage failure and the ledger still holds the old
  order only; a checkout there is answered as placed, and its order is not in the
  ledger. The same write on a blob store that refuses the upload is reported as a
  storage failure.
\<close>

theorem local_write_failure_unreported:
  "fst (writeOrders cfg_local locked_world [ord_a ''ORD-1'' 20]) = Inr ()
   \<and> ledger cfg_local (snd (writeOrders cfg_local locked_world [ord_a ''ORD-1'' 20]))
       = [ord_a ''ORD-9'' 7]
   \<and> fst (checkout cfg_local no_numeric_strings 1700000000000 ''t0'' shirt_body locked_world)
       = Reply 200 (OrderPlaced ''ORD-1700000000000'')
   \<and> ledger cfg_local
        (fst (snd (checkout cfg_local no_numeric_strings 1700000000000 ''t0'' shirt_body locked_world)))
       = [ord_a ''ORD-9'' 7]
   \<and> fst (writeOrders cfg_blob full_world [ord_a ''ORD-1'' 20]) = Inl (StorageFailure ''quota'')"
  by (simp add: ex_defs locked_world_def full_world_def shirt_body_def checkout_eval ledger_def)

subsection \<open>Export, login, signup\<close>

lemma find_admin_None_iff:
  "find_admin lc email admins = None \<longleftrightarrow> (\<forall>a \<in> set admins. lc (a_email a) \<noteq> lc email)"
  by (auto simp: find_admin_def find_None_iff)

lemma readAdmins_nonempty_same:
  "fst (readAdmins cfg w) = Arr xs \<Longrightarrow> xs \<noteq> [] \<Longrightarrow> snd (readAdmins cfg w) = w"
  by (auto simp: readAdmins_def readJson_def split: file_state.splits prod.splits if_splits)

lemma directory_array:
  "directory_is_array cfg w \<Longrightarrow> fst (readAdmins cfg w) = Arr (directory cfg w)"
  by (simp add: directory_is_array_def directory_def is_array_def items_of_def
      split: document.splits)

lemma directory_nonempty_array: "directory cfg w \<noteq> [] \<Longrightarrow> directory_is_array cfg w"
  by (simp add: directory_is_array_def directory_def is_array_def items_of_def
      split: document.splits)

text \<open>
  Claim C10. With no sync secret configured the export answers 401 Unauthorized to every
  request, whatever secret the query or the header carries, and reads nothing.
\<close>

theorem export_unauthorized_without_secret:
  "DASHBOARD_SYNC_SECRET cfg = None \<Longrightarrow> dashboard_sync cfg rq w = (Reply 401 (Error ''Unauthorized''), w)"
  by (simp add: dashboard_sync_def str_or_def)

theorem export_unauthorized_without_secret_witness:
  "dashboard_sync (cfg_local\<lparr>DASHBOARD_SYNC_SECRET := None\<rparr>)
      \<lparr>q_secret = JUndefined, h_authorization = None\<rparr> world0
     = (Reply 401 (Error ''Unauthorized''), world0)
   \<and> dashboard_sync (cfg_local\<lparr>DASHBOARD_SYNC_SECRET := None\<rparr>)
      \<lparr>q_secret = JStr [], h_authorization = Some ''Bearer ''\<rparr> world0
     = (Reply 401 (Error ''Unauthorized''), world0)"
  using export_unauthorized_without_secret [of "cfg_local\<lparr>DASHBOARD_SYNC_SECRET := None\<rparr>"]
  by (simp add: cfg_local_def)

text \<open>
  Claim C8. A login with email and password present, on an enabled admin route and a
  directory that reads as an array, gets one and the same outcome when no account has
  the email and when an account has it but the password does not match its hash: status
  401 with the message for invalid email or password, no session, and the same
  resulting state. This holds for every lowercasing function \<open>lc\<close>.
\<close>

theorem login_failures_indistinguishable:
  assumes "blockAdminRoute cfg rq = None" and "f_email b \<noteq> []" and "f_password b \<noteq> []"
    and "directory_is_array cfg w"
    and "find_admin lc (f_email b) (directory cfg w) = None
         \<or> (\<exists>adm. find_admin lc (f_email b) (directory cfg w) = Some adm
                  \<and> \<not> bcompare (f_password b) (a_passwordHash adm))"
  shows "login cfg lc bcompare save rq b w =
           (Reply 401 (Error ''Invalid email or password.''), snd (readAdmins cfg w), None)"
  using assms(1-3,5) directory_array [OF assms(4)]
  by (auto simp: login_def split: prod.splits option.splits)

lemmas admin_eval = ex_defs world_adm_def hash_matches_def blockAdminRoute_def isLocalRequest_def
  str_or_def directory_def readAdmins_def readJson_def find_admin_def ascii_lower_def lower_char_def
  items_of_def is_array_def directory_is_array_def after_write_def

theorem login_failures_indistinguishable_witness:
  "login cfg_local ascii_lower hash_matches None local_rq
       \<lparr>f_name = [], f_email = ''nobody@x.com'', f_password = ''secret''\<rparr> world_adm
     = (Reply 401 (Error ''Invalid email or password.''), world_adm, None)
   \<and> login cfg_local ascii_lower hash_matches None local_rq
       \<lparr>f_name = [], f_email = ''ann@x.com'', f_password = ''guess''\<rparr> world_adm
     = (Reply 401 (Error ''Invalid email or password.''), world_adm, None)"
proof -
  let ?b1 = "\<lparr>f_name = [], f_email = ''nobody@x.com'', f_password = ''secret''\<rparr>"
  let ?b2 = "\<lparr>f_name = [], f_email = ''ann@x.com'', f_password = ''guess''\<rparr>"
  have g: "blockAdminRoute cfg_local local_rq = None"
    by (simp add: admin_eval)
  have w: "snd (readAdmins cfg_local world_adm) = world_adm"
    by (simp add: admin_eval)
  have a: "directory_is_array cfg_local world_adm"
    by (simp add: admin_eval)
  have h1: "find_admin ascii_lower (f_email ?b1) (directory cfg_local world_adm) = None
         \<or> (\<exists>adm. find_admin ascii_lower (f_email ?b1) (directory cfg_local world_adm) = Some adm
                  \<and> \<not> hash_matches (f_password ?b1) (a_passwordHash adm))"
    by (simp add: admin_eval)
  have h2: "find_admin ascii_lower (f_email ?b2) (directory cfg_local world_adm) = None
         \<or> (\<exists>adm. find_admin ascii_lower (f_email ?b2) (directory cfg_local world_adm) = Some adm
                  \<and> \<not> hash_matches (f_password ?b2) (a_passwordHash adm))"
    by (simp add: admin_eval)
  from login_failures_indistinguishable
         [where cfg = cfg_local and rq = local_rq and b = ?b1 and w = world_adm
            and lc = ascii_lower and bcompare = hash_matches and save = None]
       login_failures_indistinguishable
         [where cfg = cfg_local and rq = local_rq and b = ?b2 and w = world_adm
            and lc = ascii_lower and bcompare = hash_matches and save = None]
       g a h1 h2 w
  show ?thesis by simp
qed

lemma signup_duplicate_reply:
  assumes "blockAdminRoute cfg rq = None"
    and "f_name b \<noteq> []" and "f_email b \<noteq> []" and "f_password b \<noteq> []"
    and "\<exists>a \<in> set (directory cfg w). lc (a_email a) = lc (f_email b)"
  shows "signup cfg lc bhash now stamp save rq b w =
           (Reply 409 (Error ''An account with this email already exists.''), w, None)"
proof -
  from assms(5) have ne: "directory cfg w \<noteq> []" by auto
  from directory_array [OF directory_nonempty_array [OF ne]]
  have arr: "fst (readAdmins cfg w) = Arr (directory cfg w)" .
  from arr ne have same: "snd (readAdmins cfg w) = w" by (rule readAdmins_nonempty_same)
  from assms(5) have "find_admin lc (f_email b) (directory cfg w) \<noteq> None"
    by (auto simp: find_admin_None_iff)
  then obtain e where "find_admin lc (f_email b) (directory cfg w) = Some e" by auto
  with assms(1-4) same arr show ?thesis
    by (cases "readAdmins cfg w") (simp add: signup_def)
qed

lemma directory_readAdmins [simp]: "directory cfg (snd (readAdmins cfg w)) = directory cfg w"
  by (simp add: directory_def readAdmins_def fst_case_prod snd_case_prod)

lemma directory_writeAdmins:
  "directory cfg (snd (writeAdmins cfg w xs)) = xs
   \<or> directory cfg (snd (writeAdmins cfg w xs)) = directory cfg w
   \<or> directory cfg (snd (writeAdmins cfg w xs)) = []"
  by (cases "fwrite (admins_file w)")
     (auto simp: directory_def writeAdmins_def readAdmins_def writeBlobJson_def writeJson_def
        readBlobJson_def readJson_def after_write_def items_of_def
      split: option.splits file_state.splits)

lemma signup_directory:
  "directory cfg (fst (snd (signup cfg lc bhash now stamp save rq b w))) = directory cfg w
   \<or> directory cfg (fst (snd (signup cfg lc bhash now stamp save rq b w))) = []
   \<or> (find_admin lc (f_email b) (directory cfg w) = None
      \<and> (\<exists>adm. a_email adm = f_email b
            \<and> directory cfg (fst (snd (signup cfg lc bhash now stamp save rq b w)))
                = directory cfg w @ [adm]))"
proof -
  obtain doc w1 where rd: "readAdmins cfg w = (doc, w1)" by (cases "readAdmins cfg w")
  then have a: "items_of doc = directory cfg w" and w1: "w1 = snd (readAdmins cfg w)"
    by (simp_all add: directory_def)
  have d1: "directory cfg w1 = directory cfg w" by (simp add: w1)
  show ?thesis
  proof (cases doc)
    case (Other t)
    with rd d1 show ?thesis
      by (auto simp: signup_def Let_def split: option.splits)
  next
    case (Arr admins)
    with a have ad: "admins = directory cfg w" by (simp add: items_of_def)
    let ?adm = "\<lparr> a_id = ''admin-'' @ decimal now, a_name = f_name b, a_email = f_email b,
                  a_passwordHash = bhash (f_password b), a_createdAt = stamp \<rparr>"
    obtain r w2 where wr: "writeAdmins cfg w1 (admins @ [?adm]) = (r, w2)"
      by (cases "writeAdmins cfg w1 (admins @ [?adm])")
    from directory_writeAdmins [of cfg w1 "admins @ [?adm]"] wr
    have d2: "directory cfg w2 = directory cfg w @ [?adm] \<or> directory cfg w2 = directory cfg w
        \<or> directory cfg w2 = []"
      by (simp add: ad d1)
    show ?thesis
    proof (cases "find_admin lc (f_email b) admins")
      case None
      with rd wr d1 d2 ad Arr show ?thesis
        by (auto simp: signup_def Let_def split: option.splits sum.splits)
    next
      case (Some e)
      with rd d1 Arr show ?thesis
        by (auto simp: signup_def Let_def split: option.splits)
    qed
  qed
qed

lemma signup_keeps_unique_emails:
  assumes "unique_emails lc (directory cfg w)"
  shows "unique_emails lc (directory cfg (fst (snd (signup cfg lc bhash now stamp save rq b w))))"
proof -
  from signup_directory [of cfg lc bhash now stamp save rq b w]
  consider
    (same) "directory cfg (fst (snd (signup cfg lc bhash now stamp save rq b w))) = directory cfg w"
  | (empty) "directory cfg (fst (snd (signup cfg lc bhash now stamp save rq b w))) = []"
  | (added) "find_admin lc (f_email b) (directory cfg w) = None
      \<and> (\<exists>adm. a_email adm = f_email b
            \<and> directory cfg (fst (snd (signup cfg lc bhash now stamp save rq b w)))
                = directory cfg w @ [adm])"
    by blast
  then show ?thesis
  proof cases
    case same
    with assms show ?thesis by simp
  next
    case empty
    then show ?thesis by (simp add: unique_emails_def)
  next
    case added
    then obtain adm where n: "find_admin lc (f_email b) (directory cfg w) = None"
      and e: "a_email adm = f_email b"
      and d: "directory cfg (fst (snd (signup cfg lc bhash now stamp save rq b w))) = directory cfg w @ [adm]"
      by blast
    from n have "lc (f_email b) \<notin> (\<lambda>a. lc (a_email a)) ` set (directory cfg w)"
      by (auto simp: find_admin_None_iff)
    with assms show ?thesis
      by (simp add: d e unique_emails_def)
  qed
qed

text \<open>
  Claim C7. A signup with name, email and password present, on an enabled admin route,
  whose email equals the email of an existing account up to letter case, is answered
  with status 409 (duplicate email); no session is opened and the state, and with it
  the admin directory, is as before. And a signup, whatever its outcome, leaves the
  emails of the directory distinct up to letter case when they were so before. This
  holds for every lowercasing function \<open>lc\<close>.
\<close>

theorem signup_duplicate_email:
  "(blockAdminRoute cfg rq = None \<and> f_name b \<noteq> [] \<and> f_email b \<noteq> [] \<and> f_password b \<noteq> []
      \<and> (\<exists>a \<in> set (directory cfg w). lc (a_email a) = lc (f_email b))
     \<longrightarrow> signup cfg lc bhash now stamp save rq b w =
           (Reply 409 (Error ''An account with this email already exists.''), w, None))
   \<and> (unique_emails lc (directory cfg w) \<longrightarrow>
        unique_emails lc (directory cfg (fst (snd (signup cfg lc bhash now stamp save rq b w)))))"
  using signup_duplicate_reply [of cfg rq b w lc bhash now stamp save]
    signup_keeps_unique_emails [of lc cfg w bhash now stamp save rq b]
  by blast

theorem signup_duplicate_email_witness:
  "signup cfg_local ascii_lower (\<lambda>pw. ''hash:'' @ pw) 1700000000000 ''t1'' None local_rq
       \<lparr>f_name = ''Bob'', f_email = ''aNN@x.COM'', f_password = ''pw''\<rparr> world_adm
     = (Reply 409 (Error ''An account with this email already exists.''), world_adm, None)
   \<and> unique_emails ascii_lower (directory cfg_local (fst (snd
        (signup cfg_local ascii_lower (\<lambda>pw. ''hash:'' @ pw) 1700000000000 ''t1'' None local_rq
           \<lparr>f_name = ''Bob'', f_email = ''aNN@x.COM'', f_password = ''pw''\<rparr> world_adm))))"
proof -
  let ?b = "\<lparr>f_name = ''Bob'', f_email = ''aNN@x.COM'', f_password = ''pw''\<rparr>"
  have g: "blockAdminRoute cfg_local local_rq = None"
    by (simp add: admin_eval)
  have d: "\<exists>a \<in> set (directory cfg_local world_adm).
      ascii_lower (a_email a) = ascii_lower (f_email ?b)"
    by (simp add: admin_eval)
  have u: "unique_emails ascii_lower (directory cfg_local world_adm)"
    by (simp add: unique_emails_def admin_eval)
  from signup_duplicate_email [where cfg = cfg_local and rq = local_rq and b = ?b
      and lc = ascii_lower and w = world_adm and bhash = "\<lambda>pw. ''hash:'' @ pw"
      and now = 1700000000000 and stamp = "''t1''" and save = None] g d u
  show ?thesis by simp
qed

subsection \<open>Customer aggregation\<close>

lemma order_email_lowercased: "order_email lc ord = lowercased_email lc ord"
  by (simp add: order_email_def lowercased_email_def cfield_def split: option.splits)

lemma aggregate_step_keys:
  "fst ` set (aggregate_step lc m ord) =
     fst ` set m \<union> (if lowercased_email lc ord = [] then {} else {lowercased_email lc ord})"
  by (auto simp: aggregate_step_def order_email_lowercased map_set_def dom_update Let_def)

lemma aggregate_step_distinct:
  "distinct (map fst m) \<Longrightarrow> distinct (map fst (aggregate_step lc m ord))"
  by (simp add: aggregate_step_def map_set_def distinct_update Let_def)

lemma aggregate_step_lookup:
  "e \<noteq> [] \<Longrightarrow> map_of (aggregate_step lc m ord) e =
     (if lowercased_email lc ord = e then row_step e (map_of m e) ord else map_of m e)"
  by (auto simp: aggregate_step_def order_email_lowercased map_set_def map_get_def update_conv'
        row_step_def Let_def)

lemma fold_keys:
  "fst ` set (foldl (aggregate_step lc) m os) =
     fst ` set m \<union> {e. e \<noteq> [] \<and> e \<in> lowercased_email lc ` set os}"
proof (induction os arbitrary: m)
  case Nil
  then show ?case by simp
next
  case (Cons a os)
  show ?case
    by (simp only: foldl_Cons Cons.IH aggregate_step_keys) auto
qed

lemma fold_distinct:
  "distinct (map fst m) \<Longrightarrow> distinct (map fst (foldl (aggregate_step lc) m os))"
  by (induction os arbitrary: m) (simp_all add: aggregate_step_distinct)

lemma fold_lookup:
  "e \<noteq> [] \<Longrightarrow> map_of (foldl (aggregate_step lc) m os) e =
     foldl (row_step e) (map_of m e) (orders_of lc e os)"
proof (induction os arbitrary: m)
  case Nil
  then show ?case by (simp add: orders_of_def)
next
  case (Cons a os)
  from Cons.prems show ?case
    by (simp add: Cons.IH [OF Cons.prems] aggregate_step_lookup orders_of_def)
qed

lemma row_fold_Some: "foldl (row_step e) (Some r) g = Some (foldl absorb r g)"
  by (induction g arbitrary: r) (simp_all add: row_step_def)

lemma row_fold_None:
  "foldl (row_step e) None (ord # g) = Some (foldl absorb (fresh_row e ord) (ord # g))"
proof -
  have "row_step e None ord = Some (absorb (fresh_row e ord) ord)"
    by (simp add: row_step_def)
  then show ?thesis
    by (simp only: foldl_Cons row_fold_Some)
qed

lemma backfill_fold:
  "foldl backfill v vs =
     (if truthy v then v else case find truthy vs of Some x \<Rightarrow> x | None \<Rightarrow> v)"
  by (induction vs arbitrary: v) (auto simp: backfill_def)

lemma backfill_fresh:
  "foldl backfill (js_or x (JStr [])) (x # vs) = first_nonempty (x # vs)"
  by (simp add: backfill_fold first_nonempty_def js_or_def backfill_def)

lemma absorb_fold_orders: "r_orders (foldl absorb r g) = r_orders r + length g"
  by (induction g arbitrary: r) (simp_all add: absorb_def)

lemma absorb_fold_spend:
  "r_totalSpend (foldl absorb r g) = foldl num_add (r_totalSpend r) (map spend g)"
  by (induction g arbitrary: r) (simp_all add: absorb_def spend_def)

lemma absorb_fold_email: "r_email (foldl absorb r g) = r_email r"
  by (induction g arbitrary: r) (simp_all add: absorb_def)

lemma absorb_fold_fields:
  "r_name (foldl absorb r g) = foldl backfill (r_name r) (map (cfield cu_name) g)"
  "r_phone (foldl absorb r g) = foldl backfill (r_phone r) (map (cfield cu_phone) g)"
  "r_address (foldl absorb r g) = foldl backfill (r_address r) (map (cfield cu_address) g)"
  "r_city (foldl absorb r g) = foldl backfill (r_city r) (map (cfield cu_city) g)"
  "r_postalCode (foldl absorb r g) = foldl backfill (r_postalCode r) (map (cfield cu_postalCode) g)"
  "r_country (foldl absorb r g) = foldl backfill (r_country r) (map (cfield cu_country) g)"
  by (induction g arbitrary: r) (simp_all add: absorb_def)

lemma group_row:
  assumes "g = ord # rest" and "c = foldl absorb (fresh_row e ord) g"
  shows "r_email c = e \<and> r_orders c = length g
       \<and> r_totalSpend c = foldl num_add (Num 0) (map spend g)
       \<and> r_name c = first_nonempty (map (cfield cu_name) g)
       \<and> r_phone c = first_nonempty (map (cfield cu_phone) g)
       \<and> r_address c = first_nonempty (map (cfield cu_address) g)
       \<and> r_city c = first_nonempty (map (cfield cu_city) g)
       \<and> r_postalCode c = first_nonempty (map (cfield cu_postalCode) g)
       \<and> r_country c = first_nonempty (map (cfield cu_country) g)"
proof -
  have f: "r_email (fresh_row e ord) = e" "r_orders (fresh_row e ord) = 0"
    "r_totalSpend (fresh_row e ord) = Num 0"
    "r_name (fresh_row e ord) = js_or (cfield cu_name ord) (JStr [])"
    "r_phone (fresh_row e ord) = js_or (cfield cu_phone ord) (JStr [])"
    "r_address (fresh_row e ord) = js_or (cfield cu_address ord) (JStr [])"
    "r_city (fresh_row e ord) = js_or (cfield cu_city ord) (JStr [])"
    "r_postalCode (fresh_row e ord) = js_or (cfield cu_postalCode ord) (JStr [])"
    "r_country (fresh_row e ord) = js_or (cfield cu_country ord) (JStr [])"
    by (simp_all add: fresh_row_def)
  have m: "map h g = h ord # map h rest" for h :: "order \<Rightarrow> jsval"
    by (simp add: assms(1))
  show ?thesis
    unfolding assms(2) absorb_fold_email absorb_fold_orders absorb_fold_spend absorb_fold_fields
      f m backfill_fresh
    by simp
qed


text \<open>
  Claim C9. The orders are grouped by the lowercased email of their customer, \<open>lc\<close>
  being the lowercasing: the aggregation gives one row for each distinct lowercased
  email that occurs in the orders (an order without an email gives none), so orders
  whose emails differ in letter case only share a row. The row of an email counts the
  orders with that lowercased email, its spend is the sum of their totals accumulated
  from 0 in scan order (a total that is missing or 0 adds 0), and each of name, phone,
  address, city, postal code and country is the first non-empty value of that field
  among these orders in scan order.
\<close>

theorem aggregate_by_email:
  "distinct (map r_email (aggregate lc orders))
   \<and> set (map r_email (aggregate lc orders))
       = {e. e \<noteq> [] \<and> e \<in> lowercased_email lc ` set orders}
   \<and> (\<forall>c \<in> set (aggregate lc orders).
         r_orders c = length (orders_of lc (r_email c) orders)
       \<and> r_totalSpend c = foldl num_add (Num 0) (map spend (orders_of lc (r_email c) orders))
       \<and> r_name c = first_nonempty (map (cfield cu_name) (orders_of lc (r_email c) orders))
       \<and> r_phone c = first_nonempty (map (cfield cu_phone) (orders_of lc (r_email c) orders))
       \<and> r_address c = first_nonempty (map (cfield cu_address) (orders_of lc (r_email c) orders))
       \<and> r_city c = first_nonempty (map (cfield cu_city) (orders_of lc (r_email c) orders))
       \<and> r_postalCode c
           = first_nonempty (map (cfield cu_postalCode) (orders_of lc (r_email c) orders))
       \<and> r_country c = first_nonempty (map (cfield cu_country) (orders_of lc (r_email c) orders)))"
proof -
  let ?M = "foldl (aggregate_step lc) [] orders"
  have dist: "distinct (map fst ?M)"
    by (rule fold_distinct) simp
  have keys: "fst ` set ?M = {e. e \<noteq> [] \<and> e \<in> lowercased_email lc ` set orders}"
    by (simp add: fold_keys)
  have entry: "r_email c = k \<and> r_orders c = length (orders_of lc k orders)
       \<and> r_totalSpend c = foldl num_add (Num 0) (map spend (orders_of lc k orders))
       \<and> r_name c = first_nonempty (map (cfield cu_name) (orders_of lc k orders))
       \<and> r_phone c = first_nonempty (map (cfield cu_phone) (orders_of lc k orders))
       \<and> r_address c = first_nonempty (map (cfield cu_address) (orders_of lc k orders))
       \<and> r_city c = first_nonempty (map (cfield cu_city) (orders_of lc k orders))
       \<and> r_postalCode c = first_nonempty (map (cfield cu_postalCode) (orders_of lc k orders))
       \<and> r_country c = first_nonempty (map (cfield cu_country) (orders_of lc k orders))"
    if kc: "(k, c) \<in> set ?M" for k c
  proof -
    from kc have "k \<in> fst ` set ?M" by force
    with keys have k: "k \<noteq> []" and "k \<in> lowercased_email lc ` set orders" by auto
    then have "orders_of lc k orders \<noteq> []"
      by (auto simp: orders_of_def filter_empty_conv)
    then obtain ord rest where g: "orders_of lc k orders = ord # rest"
      by (cases "orders_of lc k orders") auto
    from dist kc have "map_of ?M k = Some c" by simp
    with fold_lookup [OF k, of lc "[]" orders] g
    have "c = foldl absorb (fresh_row k ord) (orders_of lc k orders)"
      by (simp only: map_of.simps row_fold_None) simp
    from group_row [OF g this] show ?thesis .
  qed
  have emails: "map r_email (aggregate lc orders) = map fst ?M"
    unfolding aggregate_def map_values_def using entry by (auto simp: map_eq_conv)
  have rows: "\<exists>k. (k, c) \<in> set ?M \<and> r_email c = k" if "c \<in> set (aggregate lc orders)" for c
    using that entry unfolding aggregate_def map_values_def by force
  have "distinct (map r_email (aggregate lc orders))"
    by (simp only: emails dist)
  moreover have "set (map r_email (aggregate lc orders))
      = {e. e \<noteq> [] \<and> e \<in> lowercased_email lc ` set orders}"
    by (simp only: emails set_map keys)
  moreover have "r_orders c = length (orders_of lc (r_email c) orders)
       \<and> r_totalSpend c = foldl num_add (Num 0) (map spend (orders_of lc (r_email c) orders))
       \<and> r_name c = first_nonempty (map (cfield cu_name) (orders_of lc (r_email c) orders))
       \<and> r_phone c = first_nonempty (map (cfield cu_phone) (orders_of lc (r_email c) orders))
       \<and> r_address c = first_nonempty (map (cfield cu_address) (orders_of lc (r_email c) orders))
       \<and> r_city c = first_nonempty (map (cfield cu_city) (orders_of lc (r_email c) orders))
       \<and> r_postalCode c
           = first_nonempty (map (cfield cu_postalCode) (orders_of lc (r_email c) orders))
       \<and> r_country c = first_nonempty (map (cfield cu_country) (orders_of lc (r_email c) orders))"
    if "c \<in> set (aggregate lc orders)" for c
  proof -
    from rows [OF that] obtain k where "(k, c) \<in> set ?M" "r_email c = k" by blast
    with entry [of k c] show ?thesis by simp
  qed
  ultimately show ?thesis by blast
qed

lemmas aggregate_eval = two_orders_def ex_defs aggregate_def aggregate_step_def order_email_def
  cfield_def ascii_lower_def lower_char_def map_get_def map_set_def map_values_def fresh_row_def
  absorb_def backfill_def js_or_def num_or_def orders_of_def lowercased_email_def spend_def Let_def

text \<open>
  The two orders whose emails are \<^verbatim>\<open>A@X.COM\<close> and \<^verbatim>\<open>a@x.com\<close> give one row; the
  first order has no name, so the name is that of the second.
\<close>

lemma aggregate_example:
  "aggregate ascii_lower two_orders =
     [\<lparr> r_name = JStr ''A'', r_email = ''a@x.com'', r_phone = JStr [],
        r_address = JStr ''1 Main St'', r_city = JStr [], r_postalCode = JStr [],
        r_country = JStr [], r_orders = 2, r_totalSpend = Num 50 \<rparr>]"
  by (simp add: aggregate_eval)

theorem aggregate_by_email_witness:
  "map (lowercased_email ascii_lower) two_orders = [''a@x.com'', ''a@x.com'']
   \<and> map r_email (aggregate ascii_lower two_orders) = [''a@x.com'']
   \<and> r_orders (hd (aggregate ascii_lower two_orders)) = 2
   \<and> r_totalSpend (hd (aggregate ascii_lower two_orders)) = Num 50
   \<and> r_name (hd (aggregate ascii_lower two_orders)) = JStr ''A''"
proof -
  let ?c = "hd (aggregate ascii_lower two_orders)"
  have m: "?c \<in> set (aggregate ascii_lower two_orders)"
    by (simp add: aggregate_example)
  have e: "r_email ?c = ''a@x.com''"
    by (simp add: aggregate_example)
  have l: "map (lowercased_email ascii_lower) two_orders = [''a@x.com'', ''a@x.com'']"
    by (simp add: aggregate_eval)
  have g: "orders_of ascii_lower ''a@x.com'' two_orders = two_orders"
    by (simp add: aggregate_eval)
  from aggregate_by_email [of ascii_lower two_orders] m
  have "r_orders ?c = length (orders_of ascii_lower (r_email ?c) two_orders)"
    and "r_totalSpend ?c
          = foldl num_add (Num 0) (map spend (orders_of ascii_lower (r_email ?c) two_orders))"
    and "r_name ?c = first_nonempty (map (cfield cu_name) (orders_of ascii_lower (r_email ?c) two_orders))"
    and "set (map r_email (aggregate ascii_lower two_orders))
          = {e. e \<noteq> [] \<and> e \<in> lowercased_email ascii_lower ` set two_orders}"
    and "distinct (map r_email (aggregate ascii_lower two_orders))"
    by blast+
  then have "r_orders ?c = 2" and "r_totalSpend ?c = Num 50" and "r_name ?c = JStr ''A''"
    unfolding e g
    by (simp_all add: two_orders_def ord_a_def ord_caps_def cust_a_def spend_def num_or_def
        first_nonempty_def cfield_def)
  moreover have "map r_email (aggregate ascii_lower two_orders) = [''a@x.com'']"
    by (simp add: aggregate_example)
  ultimately show ?thesis using l by simp
qed

subsection \<open>Export and import\<close>

lemma directory_readOrders [simp]: "directory cfg (snd (readOrders cfg w)) = directory cfg w"
  by (simp add: directory_def readOrders_def readAdmins_def fst_case_prod snd_case_prod)

lemma or_empty_Arr: "or_empty d = Arr xs \<Longrightarrow> items_of d = xs"
  by (auto simp: or_empty_def items_of_def split: document.splits if_splits)

lemma dashboard_sync_export:
  "fst (dashboard_sync cfg rq w) = Reply 200 (Export (Arr L) (Arr D)) \<Longrightarrow>
     L = ledger cfg w \<and> D = directory cfg w"
proof -
  assume a: "fst (dashboard_sync cfg rq w) = Reply 200 (Export (Arr L) (Arr D))"
  obtain os w1 where o: "readOrders cfg w = (os, w1)" by (cases "readOrders cfg w")
  obtain as w2 where d: "readAdmins cfg w1 = (as, w2)" by (cases "readAdmins cfg w1")
  from a o d have "or_empty os = Arr L" and "or_empty as = Arr D"
    by (auto simp: dashboard_sync_def Let_def split: if_splits)
  then have "items_of os = L" and "items_of as = D"
    by (simp_all add: or_empty_Arr)
  moreover from o have "items_of os = ledger cfg w" by (simp add: ledger_def)
  moreover from d have "items_of as = directory cfg w1" by (simp add: directory_def)
  moreover from o have "directory cfg w1 = directory cfg w"
    using directory_readOrders [of cfg w] by simp
  ultimately show ?thesis by simp
qed

lemma writeAdmins_ok:
  "admins_writable cfg w \<Longrightarrow>
     fst (writeAdmins cfg w xs) = Inr ()
     \<and> fst (readAdmins cfg (snd (writeAdmins cfg w xs))) = Arr xs
     \<and> directory cfg (snd (writeAdmins cfg w xs)) = xs"
  by (simp add: admins_writable_def writeAdmins_def writeBlobJson_def writeJson_def directory_def
        readAdmins_def readBlobJson_def readJson_def after_write_def items_of_def)

lemma admins_writable_writeOrders [simp]:
  "admins_writable cfg (snd (writeOrders cfg w xs)) = admins_writable cfg w"
  by (simp add: admins_writable_def writeOrders_def writeBlobJson_def writeJson_def
      split: option.splits)

lemma ledger_writeAdmins [simp]: "ledger cfg (snd (writeAdmins cfg w xs)) = ledger cfg w"
  by (simp add: ledger_def readOrders_def writeAdmins_def writeBlobJson_def writeJson_def
        fst_case_prod
      split: option.splits)

lemma sync_data:
  assumes "sync_from_production cfg rq (FetchData (Some L) (Some D)) w = (Reply 200 b, w')"
  shows "\<exists>w1. writeOrders cfg w L = (Inr (), w1) \<and> writeAdmins cfg w1 D = (Inr (), w')
            \<and> b = Synced (length L) (length D)"
proof -
  obtain r1 w1 where o: "writeOrders cfg w L = (r1, w1)" by (cases "writeOrders cfg w L")
  obtain r2 w2 where a: "writeAdmins cfg w1 D = (r2, w2)" by (cases "writeAdmins cfg w1 D")
  from assms o a show ?thesis
    by (auto simp: sync_from_production_def Let_def blockAdminRoute_def requireAdminApi_def
        split: option.splits if_splits sum.splits io_error.splits)
qed

text \<open>
  What the import does when its writes go through. Let the export of an origin have
  answered with the ledger \<open>L\<close> and the directory \<open>D\<close>, and let the import of that
  answer at the destination answer 200, the active store of the destination taking
  writes. Then the ledger of the destination is \<open>L\<close> and its directory is \<open>D\<close>, which
  are the ledger and the directory of the origin: nothing of what the destination held
  before remains.
\<close>

lemma import_replaces_when_written:
  assumes "fst (dashboard_sync cfgO rqO wO) = Reply 200 (Export (Arr L) (Arr D))"
    and "sync_from_production cfg rq (fetch_of_reply (Reply 200 (Export (Arr L) (Arr D)))) w
           = (Reply 200 b, w')"
    and "orders_writable cfg w" and "admins_writable cfg w"
  shows "ledger cfg w' = L \<and> directory cfg w' = D
       \<and> L = ledger cfgO wO \<and> D = directory cfgO wO
       \<and> b = Synced (length L) (length D)"
proof -
  from assms(2) have "sync_from_production cfg rq (FetchData (Some L) (Some D)) w = (Reply 200 b, w')"
    by (simp add: array_of_def)
  from sync_data [OF this] obtain w1 where
    o: "writeOrders cfg w L = (Inr (), w1)" and a: "writeAdmins cfg w1 D = (Inr (), w')"
    and b: "b = Synced (length L) (length D)"
    by blast
  from o have w1: "w1 = snd (writeOrders cfg w L)" by simp
  from a have w': "w' = snd (writeAdmins cfg w1 D)" by simp
  have "ledger cfg w1 = L"
    using writeOrders_ok [OF assms(3), of L] by (simp add: w1)
  then have l: "ledger cfg w' = L"
    by (simp add: w')
  have "admins_writable cfg w1"
    using assms(4) by (simp add: w1)
  from writeAdmins_ok [OF this, of D] have d: "directory cfg w' = D"
    by (simp add: w')
  from l d dashboard_sync_export [OF assms(1)] b show ?thesis by simp
qed

lemmas sync_eval = ex_defs two_orders_def origin_world_def dest_world_def locked_world_def adm2_def
  dashboard_sync_def sync_from_production_def blockAdminRoute_def requireAdminApi_def
  isLocalRequest_def str_or_def strip_slashes_def js_or_def strip_bearer_def ascii_lower_def
  readOrders_def readAdmins_def readBlobJson_def readJson_def writeOrders_def writeAdmins_def
  writeJson_def writeBlobJson_def ledger_def directory_def Let_def or_empty_def array_of_def
  items_of_def after_write_def orders_writable_def admins_writable_def

lemma import_example_written:
  "ledger cfg_local dest_world = [ord_a ''ORD-9'' 7]
   \<and> directory cfg_local dest_world = [adm2]
   \<and> ledger cfg_local (snd (sync_from_production cfg_local local_rq
          (fetch_of_reply (Reply 200 (Export (Arr two_orders) (Arr [adm1])))) dest_world)) = two_orders
   \<and> directory cfg_local (snd (sync_from_production cfg_local local_rq
          (fetch_of_reply (Reply 200 (Export (Arr two_orders) (Arr [adm1])))) dest_world)) = [adm1]"
proof -
  let ?rq = "\<lparr>q_secret = JStr ''s3cret'', h_authorization = None\<rparr>"
  let ?res = "sync_from_production cfg_local local_rq
          (fetch_of_reply (Reply 200 (Export (Arr two_orders) (Arr [adm1])))) dest_world"
  have e: "fst (dashboard_sync cfg_blob ?rq origin_world)
      = Reply 200 (Export (Arr two_orders) (Arr [adm1]))"
    by (simp add: sync_eval)
  have s: "?res = (Reply 200 (Synced 2 1), snd ?res)"
    by (simp add: sync_eval)
  have l: "orders_writable cfg_local dest_world" "admins_writable cfg_local dest_world"
    by (simp_all add: sync_eval)
  note t = import_replaces_when_written [OF e s l]
  have "ledger cfg_local (snd ?res) = two_orders \<and> directory cfg_local (snd ?res) = [adm1]"
    using t by (intro conjI) (erule conjunct1, erule conjunct2 [THEN conjunct1])
  moreover have "ledger cfg_local dest_world = [ord_a ''ORD-9'' 7]
     \<and> directory cfg_local dest_world = [adm2]"
    by (simp add: sync_eval)
  ultimately show ?thesis by simp
qed

text \<open>
  Claim C3. The claim fails on a destination that keeps its collections in local files
  that cannot be opened for writing. The export of the origin answers with its ledger of
  two orders and its directory of one account; the import of that answer at the
  destination answers 200 and reports two orders and one account as imported; and
  after it the ledger of the destination still holds its own order and the directory
  its own account, and nothing of the origin. The two writes of the import failed and
  \<^verbatim>\<open>writeJson\<close> reported neither.
\<close>

theorem import_reports_success_without_replacing:
  "fst (dashboard_sync cfg_blob \<lparr>q_secret = JStr ''s3cret'', h_authorization = None\<rparr> origin_world)
     = Reply 200 (Export (Arr two_orders) (Arr [adm1]))
   \<and> fst (sync_from_production cfg_local local_rq
          (fetch_of_reply (Reply 200 (Export (Arr two_orders) (Arr [adm1])))) locked_world)
     = Reply 200 (Synced 2 1)
   \<and> ledger cfg_local (snd (sync_from_production cfg_local local_rq
          (fetch_of_reply (Reply 200 (Export (Arr two_orders) (Arr [adm1])))) locked_world))
     = [ord_a ''ORD-9'' 7]
   \<and> directory cfg_local (snd (sync_from_production cfg_local local_rq
          (fetch_of_reply (Reply 200 (Export (Arr two_orders) (Arr [adm1])))) locked_world))
     = [adm2]"
  by (simp add: sync_eval)

subsection \<open>Runs of checkouts\<close>

lemma digit_char_inj:
  assumes "a < 10" and "b < 10" and "digit_char a = digit_char b"
  shows "a = b"
proof -
  have d: "distinct ''0123456789''" by simp
  from assms show ?thesis
    unfolding digit_char_def using nth_eq_iff_index_eq [OF d, of a b] by simp
qed

lemma decimal_nonempty: "decimal n \<noteq> []"
  by (subst decimal.simps) simp

lemma decimal_last: "last (decimal n) = digit_char (n mod 10)"
  by (subst decimal.simps) simp

lemma decimal_butlast: "butlast (decimal n) = (if n < 10 then [] else decimal (n div 10))"
  by (subst decimal.simps) simp

lemma decimal_inj: "decimal m = decimal n \<Longrightarrow> m = n"
proof (induction m arbitrary: n rule: decimal.induct)
  case (1 m)
  from "1.prems" have "last (decimal m) = last (decimal n)" by simp
  then have "digit_char (m mod 10) = digit_char (n mod 10)"
    by (simp only: decimal_last)
  then have md: "m mod 10 = n mod 10"
    by (rule digit_char_inj [rotated 2]) simp_all
  from "1.prems" have "butlast (decimal m) = butlast (decimal n)" by simp
  then have bl: "(if m < 10 then [] else decimal (m div 10)) = (if n < 10 then [] else decimal (n div 10))"
    by (simp only: decimal_butlast)
  show ?case
  proof (cases "m < 10")
    case True
    with bl decimal_nonempty [of "n div 10"] have "n < 10"
      by (auto split: if_splits)
    with True md show ?thesis by simp
  next
    case False
    with bl decimal_nonempty [of "m div 10"] have n: "\<not> n < 10"
      by (auto split: if_splits)
    with False bl have "decimal (m div 10) = decimal (n div 10)" by simp
    from "1.IH" [OF False this] have "m div 10 = n div 10" .
    with md show ?thesis
      by (metis div_mult_mod_eq)
  qed
qed

lemma order_id_inj: "''ORD-'' @ decimal m = ''ORD-'' @ decimal n \<longleftrightarrow> m = n"
  using decimal_inj by auto

lemma prepare_depends_on_products:
  "products_file w = products_file w' \<Longrightarrow>
     fst (checkout_prepare s2n b w) = fst (checkout_prepare s2n b w')"
proof (cases "cartItems b")
  case None
  then show ?thesis by (simp add: checkout_prepare_def)
next
  case (Some cart)
  assume "products_file w = products_file w'"
  then have "catalog w = catalog w'" and "catalog_is_array w = catalog_is_array w'"
    by (simp_all add: catalog_def catalog_is_array_def)
  then show ?thesis
    by (simp add: checkout_prepare_some [OF Some] split: option.splits)
qed

lemma accepted_products:
  "products_file w = products_file w' \<Longrightarrow> accepted s2n w b = accepted s2n w' b"
  by (simp add: accepted_def prepare_depends_on_products [of w w'])

lemma accepted_catalog:
  assumes "accepted s2n w b"
  shows "catalog_is_array w \<and> catalog w \<noteq> []"
proof (cases "cartItems b")
  case None
  with assms show ?thesis by (simp add: accepted_def checkout_prepare_def)
next
  case (Some cart)
  have "resolved_lines s2n (productMap []) cart = []"
    by (simp add: resolved_lines_Nil productMap_None)
  with assms Some show ?thesis
    by (auto simp: accepted_def checkout_prepare_some split: if_splits option.splits)
qed

lemma accepted_keeps_products:
  assumes "accepted s2n w b"
  shows "products_file (snd (checkout_prepare s2n b w)) = products_file w"
proof -
  from accepted_catalog [OF assms]
  have "fst (readJson (products_file w) []) = Arr (catalog w)" and "catalog w \<noteq> []"
    by (simp_all add: catalog_is_array_def catalog_def is_array_def items_of_def
        split: document.splits)
  then have "snd (readJson (products_file w) []) = products_file w"
    by (rule readJson_array_keeps)
  with prepare_world [of s2n b w] show ?thesis by auto
qed

lemma ledger_array:
  "ledger_is_array cfg w \<Longrightarrow> fst (readOrders cfg w) = Arr (ledger cfg w)"
  by (simp add: ledger_is_array_def ledger_def is_array_def items_of_def split: document.splits)

lemma checkout_accepted:
  assumes acc: "accepted s2n w b" and ow: "orders_writable cfg w" and la: "ledger_is_array cfg w"
  shows "\<exists>ord w'. checkout cfg s2n now stamp b w = (Reply 200 (OrderPlaced (o_id ord)), w', Some ord)
           \<and> o_id ord = ''ORD-'' @ decimal now
           \<and> ledger cfg w' = ledger cfg w @ [ord]
           \<and> orders_writable cfg w' \<and> ledger_is_array cfg w'
           \<and> products_file w' = products_file w"
proof -
  obtain p w1 where pr: "checkout_prepare s2n b w = (Inr p, w1)"
    using acc by (cases "checkout_prepare s2n b w") (auto simp: accepted_def split: sum.splits)
  obtain doc w2 where rd: "readOrders cfg w1 = (doc, w2)"
    by (cases "readOrders cfg w1")
  from pr have w1: "w1 = snd (checkout_prepare s2n b w)" by simp
  from rd have w2: "w2 = snd (readOrders cfg w1)" and dc: "doc = fst (readOrders cfg w1)"
    by simp_all
  have doc: "doc = Arr (ledger cfg w)"
    using ledger_array [OF la] by (simp add: dc w1)
  let ?orders = "ledger cfg w"
  let ?ord = "make_order now stamp p"
  obtain r w3 where wr: "writeOrders cfg w2 (?orders @ [?ord]) = (r, w3)"
    by (cases "writeOrders cfg w2 (?orders @ [?ord])")
  have ow2: "orders_writable cfg w2" by (simp add: w2 w1 ow)
  from wr have w3: "w3 = snd (writeOrders cfg w2 (?orders @ [?ord]))" by simp
  from writeOrders_ok [OF ow2, of "?orders @ [?ord]"] wr
  have r: "r = Inr ()" and l: "ledger cfg w3 = ?orders @ [?ord]"
    and a3: "fst (readOrders cfg w3) = Arr (?orders @ [?ord])"
    by simp_all
  have la3: "ledger_is_array cfg w3"
    by (simp add: ledger_is_array_def a3 is_array_def)
  have ow3: "orders_writable cfg w3" by (simp add: w3 ow2)
  have c3: "products_file w3 = products_file w"
    by (simp add: w3 w2 w1 accepted_keeps_products [OF acc])
  have id: "o_id ?ord = ''ORD-'' @ decimal now"
    by (cases p) (simp add: make_order_def)
  have "checkout cfg s2n now stamp b w = (Reply 200 (OrderPlaced (o_id ?ord)), w3, Some ?ord)"
    by (simp add: checkout_def pr rd doc checkout_commit_def wr r Let_def)
  with id l ow3 la3 c3 show ?thesis by blast
qed

lemma step_pair:
  assumes "s_pending s = []"
  shows "step cfg s2n (step cfg s2n s (Arrive i b)) (Resume i now stamp)
           = serve cfg s2n s (i, now, stamp, b)"
proof (cases "checkout_prepare s2n b (s_world s)")
  case (Pair x w1)
  show ?thesis
  proof (cases x)
    case (Inl r)
    with Pair assms show ?thesis
      by (simp add: serve_def checkout_def)
  next
    case (Inr p)
    obtain orders w2 where rd: "readOrders cfg w1 = (orders, w2)"
      by (cases "readOrders cfg w1")
    obtain r w' mail where co: "checkout_commit cfg now stamp p orders w2 = (r, w', mail)"
      by (cases "checkout_commit cfg now stamp p orders w2")
    from Pair Inr rd co assms show ?thesis
      by (simp add: serve_def checkout_def)
  qed
qed

lemma run_serial: "s_pending s = [] \<Longrightarrow>
  run cfg s2n s (serial rs) = foldl (serve cfg s2n) s rs
  \<and> s_pending (foldl (serve cfg s2n) s rs) = []"
proof (induction rs arbitrary: s)
  case Nil
  then show ?case by (simp add: run_def serial_def)
next
  case (Cons rq rs)
  obtain i now stamp b where rq: "rq = (i, now, stamp, b)" by (cases rq)
  have p: "s_pending (serve cfg s2n s rq) = []"
    using Cons.prems by (simp add: serve_def split: prod.splits)
  have "run cfg s2n s (serial (rq # rs)) = run cfg s2n (serve cfg s2n s rq) (serial rs)"
    using step_pair [OF Cons.prems, of cfg s2n i b now stamp]
    by (simp add: run_def serial_def rq)
  with Cons.IH [OF p] show ?case by simp
qed

lemma serve_all:
  assumes "orders_writable cfg (s_world s)"
    and "ledger_is_array cfg (s_world s)"
    and "\<forall>rq \<in> set rs. accepted s2n (s_world s) (snd (snd (snd rq)))"
  shows "\<exists>new. ledger cfg (s_world (foldl (serve cfg s2n) s rs)) = ledger cfg (s_world s) @ new
           \<and> map o_id new = map (\<lambda>rq. ''ORD-'' @ decimal (fst (snd rq))) rs
           \<and> map snd (s_replies (foldl (serve cfg s2n) s rs))
               = map snd (s_replies s) @ map (\<lambda>rq. Reply 200 (OrderPlaced (''ORD-'' @ decimal (fst (snd rq))))) rs"
  using assms
proof (induction rs arbitrary: s)
  case Nil
  then show ?case by simp
next
  case (Cons rq rs)
  obtain i now stamp b where rq: "rq = (i, now, stamp, b)" by (cases rq)
  from Cons.prems(3) rq have acc: "accepted s2n (s_world s) b" by simp
  from checkout_accepted [OF acc Cons.prems(1,2), of now stamp] obtain ord w' where
    co: "checkout cfg s2n now stamp b (s_world s) = (Reply 200 (OrderPlaced (o_id ord)), w', Some ord)"
    and id: "o_id ord = ''ORD-'' @ decimal now"
    and l: "ledger cfg w' = ledger cfg (s_world s) @ [ord]"
    and ow: "orders_writable cfg w'" and la: "ledger_is_array cfg w'"
    and cat: "products_file w' = products_file (s_world s)"
    by blast
  let ?s1 = "serve cfg s2n s rq"
  from co have s1: "?s1 = s\<lparr>s_world := w', s_replies := s_replies s @ [(i, Reply 200 (OrderPlaced (o_id ord)))]\<rparr>"
    by (simp add: serve_def rq)
  have w1: "s_world ?s1 = w'" by (simp add: s1)
  have a1: "\<forall>rq \<in> set rs. accepted s2n (s_world ?s1) (snd (snd (snd rq)))"
    using Cons.prems(3) accepted_products [OF cat] by (simp add: w1)
  have o1: "orders_writable cfg (s_world ?s1)" by (simp add: w1 ow)
  have l1: "ledger_is_array cfg (s_world ?s1)" by (simp add: w1 la)
  from Cons.IH [OF o1 l1 a1] obtain new where
    n: "ledger cfg (s_world (foldl (serve cfg s2n) ?s1 rs)) = ledger cfg (s_world ?s1) @ new"
       "map o_id new = map (\<lambda>rq. ''ORD-'' @ decimal (fst (snd rq))) rs"
       "map snd (s_replies (foldl (serve cfg s2n) ?s1 rs))
               = map snd (s_replies ?s1) @ map (\<lambda>rq. Reply 200 (OrderPlaced (''ORD-'' @ decimal (fst (snd rq))))) rs"
    by blast
  have "ledger cfg (s_world (foldl (serve cfg s2n) s (rq # rs))) = ledger cfg (s_world s) @ (ord # new)"
    using n(1) by (simp add: w1 l)
  moreover have "map o_id (ord # new) = map (\<lambda>rq. ''ORD-'' @ decimal (fst (snd rq))) (rq # rs)"
    using n(2) by (simp add: id rq)
  moreover have "map snd (s_replies (foldl (serve cfg s2n) s (rq # rs)))
               = map snd (s_replies s) @ map (\<lambda>rq. Reply 200 (OrderPlaced (''ORD-'' @ decimal (fst (snd rq))))) (rq # rs)"
  proof -
    have "map snd (s_replies ?s1) = map snd (s_replies s) @ [Reply 200 (OrderPlaced (''ORD-'' @ decimal now))]"
      by (simp add: s1 id)
    with n(3) show ?thesis by (simp add: rq)
  qed
  ultimately show ?case by blast
qed

text \<open>
  Claim C2, as amended. The handler has no lock and no queue, so the cycles of two
  checkouts may overlap. When checkouts that are accepted are served one after the other,
  each cycle ending before the next begins, on a ledger that reads as an array and
  whose writes go through, then \<open>N\<close> checkouts add exactly \<open>N\<close> orders to the ledger,
  each is answered as placed, the identifier of each is \<open>ORD-\<close> followed by its clock
  reading, and these identifiers are distinct when the clock readings are.
\<close>

theorem serial_checkouts_all_recorded:
  assumes "s_pending s = []"
    and "orders_writable cfg (s_world s)"
    and "ledger_is_array cfg (s_world s)"
    and "\<forall>rq \<in> set rs. accepted s2n (s_world s) (snd (snd (snd rq)))"
    and "distinct (map (\<lambda>rq. fst (snd rq)) rs)"
  shows "\<exists>new. ledger cfg (s_world (run cfg s2n s (serial rs))) = ledger cfg (s_world s) @ new
           \<and> length new = length rs
           \<and> map o_id new = map (\<lambda>rq. ''ORD-'' @ decimal (fst (snd rq))) rs
           \<and> distinct (map o_id new)
           \<and> map snd (s_replies (run cfg s2n s (serial rs)))
               = map snd (s_replies s) @ map (\<lambda>rq. Reply 200 (OrderPlaced (''ORD-'' @ decimal (fst (snd rq))))) rs"
proof -
  from run_serial [OF assms(1)] have r: "run cfg s2n s (serial rs) = foldl (serve cfg s2n) s rs"
    by simp
  from serve_all [OF assms(2,3,4)] obtain new where
    n: "ledger cfg (s_world (foldl (serve cfg s2n) s rs)) = ledger cfg (s_world s) @ new"
       "map o_id new = map (\<lambda>rq. ''ORD-'' @ decimal (fst (snd rq))) rs"
       "map snd (s_replies (foldl (serve cfg s2n) s rs))
               = map snd (s_replies s) @ map (\<lambda>rq. Reply 200 (OrderPlaced (''ORD-'' @ decimal (fst (snd rq))))) rs"
    by blast
  from n(2) have len: "length new = length rs"
    by (metis length_map)
  have "inj (\<lambda>n. ''ORD-'' @ decimal n)"
    by (rule injI) (simp add: decimal_inj)
  then have "distinct (map (\<lambda>n. ''ORD-'' @ decimal n) (map (\<lambda>rq. fst (snd rq)) rs))"
    using assms(5) by (simp add: distinct_map inj_on_subset [OF _ subset_UNIV] del: map_map)
  then have "distinct (map o_id new)"
    by (simp add: n(2) comp_def)
  with n len r show ?thesis by auto
qed

lemmas run_eval = run_def serial_def server0_def shirt_body_def ledger_def ledger_is_array_def
  checkout_eval ex_defs

text \<open>
  Claim C2 as stated fails. Two checkouts arrive one after the other on the blob store:
  both are in flight at once, both read the empty ledger, both are answered as placed,
  and the ledger ends with one order, the first being overwritten. And two checkouts
  served one after the other within the same millisecond get the same identifier.
\<close>

theorem interleaved_checkouts_counterexample:
  "length (s_pending (run cfg_blob no_numeric_strings server0
       [Arrive 1 shirt_body, Arrive 2 shirt_body])) = 2
   \<and> map snd (s_replies (run cfg_blob no_numeric_strings server0
       [Arrive 1 shirt_body, Arrive 2 shirt_body,
        Resume 1 1700000000000 ''t0'', Resume 2 1700000000001 ''t1'']))
     = [Reply 200 (OrderPlaced ''ORD-1700000000000''), Reply 200 (OrderPlaced ''ORD-1700000000001'')]
   \<and> map o_id (ledger cfg_blob (s_world (run cfg_blob no_numeric_strings server0
       [Arrive 1 shirt_body, Arrive 2 shirt_body,
        Resume 1 1700000000000 ''t0'', Resume 2 1700000000001 ''t1''])))
     = [''ORD-1700000000001'']
   \<and> map o_id (ledger cfg_blob (s_world (run cfg_blob no_numeric_strings server0
       (serial [(1, 1700000000000, ''t0'', shirt_body), (2, 1700000000000, ''t0'', shirt_body)]))))
     = [''ORD-1700000000000'', ''ORD-1700000000000'']"
  by (simp add: run_eval)

theorem serial_checkouts_all_recorded_witness:
  "length (ledger cfg_blob (s_world (run cfg_blob no_numeric_strings server0 (serial two_requests)))) = 2
   \<and> distinct (map o_id (ledger cfg_blob
         (s_world (run cfg_blob no_numeric_strings server0 (serial two_requests)))))"
proof -
  have p: "s_pending server0 = []" by (simp add: server0_def)
  have w: "orders_writable cfg_blob (s_world server0)"
    by (simp add: orders_writable_def server0_def ex_defs)
  have la: "ledger_is_array cfg_blob (s_world server0)"
    by (simp add: run_eval readBlobJson_def)
  have a: "\<forall>rq \<in> set two_requests. accepted no_numeric_strings (s_world server0) (snd (snd (snd rq)))"
    by (simp add: two_requests_def accepted_def run_eval)
  have d: "distinct (map (\<lambda>rq. fst (snd rq)) two_requests)"
    by (simp add: two_requests_def)
  have l0: "ledger cfg_blob (s_world server0) = []"
    by (simp add: run_eval readBlobJson_def)
  from serial_checkouts_all_recorded [OF p w la a d] l0 obtain new where
    "ledger cfg_blob (s_world (run cfg_blob no_numeric_strings server0 (serial two_requests))) = new"
    "length new = length two_requests" "distinct (map o_id new)"
    by auto
  then show ?thesis by (simp add: two_requests_def)
qed

end
